theory Spec2Isabelle
  imports Complex_Main "HOL-Library.Word" "HOL-Library.Code_Target_Nat"
begin

unbundle bit_operations_syntax

section \<open>Values of the host language and its libraries\<close>

text \<open>
  The SDK (\<^verbatim>\<open>src/sdk.ts\<close>) is one class, \<^verbatim>\<open>SmartAccountSDK\<close>, that composes
  unsigned transactions. Its own code is glue around four libraries: Node's \<^verbatim>\<open>Buffer\<close>,
  \<^verbatim>\<open>bn.js\<close> (Anchor's \<^verbatim>\<open>BN\<close>), \<^verbatim>\<open>@solana/web3.js\<close> and Anchor's method
  builder. Each library call the class makes is embedded below at the level of what it
  returns or throws; an exception is a value \<open>Inl e\<close> of a sum type.
\<close>

type_synonym byte = "8 word"
type_synonym buffer = "byte list"

datatype error =
    AssertionError            \<comment> \<open>bn.js \<^verbatim>\<open>assert\<close> in \<^verbatim>\<open>_initNumber\<close>\<close>
  | SyntaxError               \<comment> \<open>\<^verbatim>\<open>BigInt(string)\<close> on a string that is no integer literal\<close>
  | ERR_OUT_OF_RANGE          \<comment> \<open>\<^verbatim>\<open>Buffer\<close> write of a value, or at an offset, outside its range\<close>
  | ERR_BUFFER_OUT_OF_BOUNDS  \<comment> \<open>\<^verbatim>\<open>Buffer\<close> write of a field longer than the buffer\<close>
  | MaxSeedLengthExceeded     \<comment> \<open>the \<^verbatim>\<open>TypeError\<close> of \<^verbatim>\<open>createProgramAddressSync\<close>\<close>
  | AddressOnCurve            \<comment> \<open>"Invalid seeds, address must fall off the curve"\<close>
  | NoViableNonce             \<comment> \<open>"Unable to find a viable program address nonce"\<close>
  | NoSuchMethod string       \<comment> \<open>\<^verbatim>\<open>program.methods.m\<close> is undefined: the IDL has no instruction m\<close>
  | AccountNotProvided string \<comment> \<open>Anchor: an account of the instruction was not supplied\<close>
  | AccountDoesNotExist       \<comment> \<open>Anchor: \<^verbatim>\<open>fetch\<close> of an address that holds no account\<close>

text \<open>Sequencing of fallible steps: the first exception ends the computation.\<close>

definition andThen :: "error + 'a \<Rightarrow> ('a \<Rightarrow> error + 'b) \<Rightarrow> error + 'b" where
  "andThen r f = (case r of Inl e \<Rightarrow> Inl e | Inr x \<Rightarrow> f x)"

subsection \<open>JavaScript numbers\<close>

text \<open>
  A JavaScript \<^verbatim>\<open>number\<close> is a double. Every finite double is a rational, and the
  operations \<^verbatim>\<open>_initNumber\<close> applies to its argument (comparison with a constant,
  negation, division of a value of at least \<open>2^26\<close> by \<open>2^26\<close>, and \<^verbatim>\<open>&\<close>) are exact
  on doubles, so they are computed here on the rational itself. Negative zero behaves as
  zero in all of them and is not told apart.
\<close>

datatype number = Finite rat | NaN | PosInfinity | NegInfinity

fun js_less :: "number \<Rightarrow> rat \<Rightarrow> bool" where
  "js_less (Finite q) c = (q < c)"
| "js_less NaN c = False"
| "js_less PosInfinity c = False"
| "js_less NegInfinity c = True"

fun js_negate :: "number \<Rightarrow> number" where
  "js_negate (Finite q) = Finite (- q)"
| "js_negate NaN = NaN"
| "js_negate PosInfinity = NegInfinity"
| "js_negate NegInfinity = PosInfinity"

fun js_divide :: "number \<Rightarrow> rat \<Rightarrow> number" where
  "js_divide (Finite q) c = Finite (q / c)"
| "js_divide x c = x"

definition js_truncate :: "rat \<Rightarrow> int" where
  "js_truncate q = (if q < 0 then - \<lfloor>- q\<rfloor> else \<lfloor>q\<rfloor>)"

text \<open>
  \<^verbatim>\<open>ToInt32\<close>: the integer part modulo \<open>2^32\<close>, read as two's complement; \<^verbatim>\<open>NaN\<close>
  and the infinities give 0. \<^verbatim>\<open>x & m\<close> is the bitwise conjunction of the two 32-bit values.
\<close>

fun ToInt32 :: "number \<Rightarrow> int" where
  "ToInt32 (Finite q) = signed_take_bit 31 (js_truncate q)"
| "ToInt32 x = 0"

definition js_bitand :: "number \<Rightarrow> int \<Rightarrow> int" where
  "js_bitand x m = ToInt32 x AND signed_take_bit 31 m"

subsection \<open>bn.js: construction from a number, \<^verbatim>\<open>toString\<close>\<close>

text \<open>
  A \<^verbatim>\<open>BN\<close> holds a sign flag and limbs below \<open>2^26\<close>, least significant first.
  \<^verbatim>\<open>new BN(number)\<close> calls \<^verbatim>\<open>this._init(number || 0, ...)\<close>, which for a number is
  \<^verbatim>\<open>_initNumber\<close>:
  \<^verbatim>\<open>
    if (number < 0) { this.negative = 1; number = -number; }
    if (number < 0x4000000) {
      this.words = [number & 0x3ffffff];
    } else if (number < 0x10000000000000) {
      this.words = [number & 0x3ffffff, (number / 0x4000000) & 0x3ffffff];
    } else {
      assert(number < 0x20000000000000); // 2 ^ 53 (unsafe)
      this.words = [number & 0x3ffffff, (number / 0x4000000) & 0x3ffffff, 1];
    }
  \<close>
\<close>

record BN =
  negative :: nat
  words :: "nat list"

definition initNumber :: "number \<Rightarrow> error + BN" where
  "initNumber number0 =
     (let neg = (if js_less number0 0 then 1 else 0);
          number = (if js_less number0 0 then js_negate number0 else number0)
      in if js_less number 0x4000000 then
           Inr \<lparr>negative = neg, words = [nat (js_bitand number 0x3ffffff)]\<rparr>
         else if js_less number 0x10000000000000 then
           Inr \<lparr>negative = neg,
                words = [nat (js_bitand number 0x3ffffff),
                         nat (js_bitand (js_divide number 0x4000000) 0x3ffffff)]\<rparr>
         else if js_less number 0x20000000000000 then
           Inr \<lparr>negative = neg,
                words = [nat (js_bitand number 0x3ffffff),
                         nat (js_bitand (js_divide number 0x4000000) 0x3ffffff),
                         1]\<rparr>
         else Inl AssertionError)"

text \<open>
  \<^verbatim>\<open>number || 0\<close> replaces the falsy numbers, \<^verbatim>\<open>NaN\<close> and zero, by 0.
\<close>

definition BN_new :: "number \<Rightarrow> error + BN" where
  "BN_new number = initNumber (if number = NaN \<or> number = Finite 0 then Finite 0 else number)"

text \<open>The magnitude the limbs denote, and the integer the \<^verbatim>\<open>BN\<close> denotes.\<close>

fun magnitude :: "nat list \<Rightarrow> nat" where
  "magnitude [] = 0"
| "magnitude (w # ws) = w + 0x4000000 * magnitude ws"

definition BN_int :: "BN \<Rightarrow> int" where
  "BN_int b = (if negative b \<noteq> 0 then - int (magnitude (words b)) else int (magnitude (words b)))"

text \<open>
  \<^verbatim>\<open>toString()\<close> is the magnitude in base 10 without leading zeros, with \<^verbatim>\<open>-\<close> in
  front when the sign flag is set (also when the magnitude is zero: \<^verbatim>\<open>"-0"\<close>).
\<close>

definition digit_char :: "nat \<Rightarrow> char" where
  "digit_char d = char_of (48 + d)"

fun decimal :: "nat \<Rightarrow> string" where
  "decimal n = (if n < 10 then [digit_char n] else decimal (n div 10) @ [digit_char (n mod 10)])"

declare decimal.simps [simp del]

definition toString :: "BN \<Rightarrow> string" where
  "toString b = (if negative b \<noteq> 0 then CHR ''-'' # decimal (magnitude (words b))
                 else decimal (magnitude (words b)))"

subsection \<open>\<^verbatim>\<open>BigInt(string)\<close>\<close>

text \<open>
  \<^verbatim>\<open>BigInt\<close> of a string reads an optionally signed decimal literal; the empty string is
  \<open>0\<close>, anything else throws \<^verbatim>\<open>SyntaxError\<close>. (Surrounding white space and the
  \<^verbatim>\<open>0x\<close>, \<^verbatim>\<open>0o\<close>, \<^verbatim>\<open>0b\<close> forms, which \<^verbatim>\<open>toString()\<close> never produces, are left out.)
\<close>

definition is_digit :: "char \<Rightarrow> bool" where
  "is_digit c = (48 \<le> (of_char c :: nat) \<and> (of_char c :: nat) \<le> 57)"

definition digits_value :: "string \<Rightarrow> nat" where
  "digits_value s = foldl (\<lambda>acc c. 10 * acc + (of_char c - 48)) 0 s"

definition BigInt :: "string \<Rightarrow> error + int" where
  "BigInt s =
     (case s of
        [] \<Rightarrow> Inr 0
      | c # cs \<Rightarrow>
          if (c = CHR ''-'' \<or> c = CHR ''+'') \<and> cs \<noteq> [] \<and> list_all is_digit cs then
            Inr (if c = CHR ''-'' then - int (digits_value cs) else int (digits_value cs))
          else if list_all is_digit s then Inr (int (digits_value s))
          else Inl SyntaxError)"

subsection \<open>Node's \<^verbatim>\<open>Buffer\<close>\<close>

text \<open>
  \<^verbatim>\<open>Buffer.alloc(n)\<close> is \<open>n\<close> zero bytes. Each write first checks the value against the
  field's range (\<^verbatim>\<open>ERR_OUT_OF_RANGE\<close>), then that the field fits at the offset
  (\<^verbatim>\<open>ERR_BUFFER_OUT_OF_BOUNDS\<close> when the buffer is shorter than the field,
  \<^verbatim>\<open>ERR_OUT_OF_RANGE\<close> otherwise), and only then stores bytes; a store keeps the low 8
  bits of what is stored.
  \<^verbatim>\<open>writeBigUInt64LE\<close> stores the low and the high 32-bit half, each byte by byte:
  \<^verbatim>\<open>
    let lo = Number(value & 0xffffffffn);
    buf[offset++] = lo; lo = lo >> 8; ... (4 bytes)
    let hi = Number(value >> 32n & 0xffffffffn);
    buf[offset++] = hi; hi = hi >> 8; ... (4 bytes)
  \<close>
\<close>

definition boundsError :: "nat \<Rightarrow> buffer \<Rightarrow> error" where
  "boundsError n buf = (if length buf < n then ERR_BUFFER_OUT_OF_BOUNDS else ERR_OUT_OF_RANGE)"

definition Buffer_alloc :: "nat \<Rightarrow> buffer" where
  "Buffer_alloc n = replicate n 0"

definition store4 :: "int \<Rightarrow> nat \<Rightarrow> buffer \<Rightarrow> buffer" where
  "store4 x offset buf =
     buf[offset := word_of_int x,
         offset + 1 := word_of_int (drop_bit 8 x),
         offset + 2 := word_of_int (drop_bit 8 (drop_bit 8 x)),
         offset + 3 := word_of_int (drop_bit 8 (drop_bit 8 (drop_bit 8 x)))]"

definition writeUInt8 :: "int \<Rightarrow> nat \<Rightarrow> buffer \<Rightarrow> error + buffer" where
  "writeUInt8 v offset buf =
     (if v < 0 \<or> 0xff < v then Inl ERR_OUT_OF_RANGE
      else if length buf < offset + 1 then Inl (boundsError 1 buf)
      else Inr (buf[offset := word_of_int v]))"

definition writeUInt32LE :: "int \<Rightarrow> nat \<Rightarrow> buffer \<Rightarrow> error + buffer" where
  "writeUInt32LE v offset buf =
     (if v < 0 \<or> 0xffffffff < v then Inl ERR_OUT_OF_RANGE
      else if length buf < offset + 4 then Inl (boundsError 4 buf)
      else Inr (store4 v offset buf))"

definition writeBigUInt64LE :: "int \<Rightarrow> nat \<Rightarrow> buffer \<Rightarrow> error + buffer" where
  "writeBigUInt64LE v offset buf =
     (if v < 0 \<or> 0xffffffffffffffff < v then Inl ERR_OUT_OF_RANGE
      else if length buf < offset + 8 then Inl (boundsError 8 buf)
      else
        let lo = v AND 0xffffffff;
            hi = drop_bit 32 v AND 0xffffffff
        in Inr (store4 hi (offset + 4) (store4 lo offset buf)))"

section \<open>The instruction payloads of the two transfers\<close>

text \<open>
  The amount parameter has type \<^verbatim>\<open>number | anchor.BN\<close>; \<^verbatim>\<open>typeof x === 'number'\<close>
  tells the two apart.
\<close>

datatype amount = Number number | BigNum BN

text \<open>
  \<^verbatim>\<open>typeof lamports === 'number' ? new anchor.BN(lamports) : lamports\<close>
\<close>

definition toBN :: "amount \<Rightarrow> error + BN" where
  "toBN a = (case a of Number n \<Rightarrow> BN_new n | BigNum b \<Rightarrow> Inr b)"

text \<open>
  Lines 184 to 189 of \<^verbatim>\<open>executeSolTransfer\<close>:
  \<^verbatim>\<open>
    const instructionIndex = 2;
    const lamportsAmount = typeof lamports === 'number' ? new anchor.BN(lamports) : lamports;
    const instructionData = Buffer.alloc(12);
    instructionData.writeUInt32LE(instructionIndex, 0);
    instructionData.writeBigUInt64LE(BigInt(lamportsAmount.toString()), 4);
  \<close>
\<close>

definition solTransferData :: "amount \<Rightarrow> error + buffer" where
  "solTransferData lamports =
     (let instructionIndex = 2 in
      andThen (toBN lamports) (\<lambda>lamportsAmount.
      andThen (writeUInt32LE instructionIndex 0 (Buffer_alloc 12)) (\<lambda>instructionData.
      andThen (BigInt (toString lamportsAmount)) (\<lambda>v.
      writeBigUInt64LE v 4 instructionData))))"

text \<open>
  Lines 227 to 231 of \<^verbatim>\<open>executeTokenTransfer\<close>:
  \<^verbatim>\<open>
    const transferAmount = typeof amount === 'number' ? new anchor.BN(amount) : amount;
    const instructionData = Buffer.alloc(9);
    instructionData.writeUInt8(3, 0);
    instructionData.writeBigUInt64LE(BigInt(transferAmount.toString()), 1);
  \<close>
\<close>

definition tokenTransferData :: "amount \<Rightarrow> error + buffer" where
  "tokenTransferData amount =
     andThen (toBN amount) (\<lambda>transferAmount.
     andThen (writeUInt8 3 0 (Buffer_alloc 9)) (\<lambda>instructionData.
     andThen (BigInt (toString transferAmount)) (\<lambda>v.
     writeBigUInt64LE v 1 instructionData)))"

section \<open>Addresses\<close>

text \<open>
  A \<^verbatim>\<open>PublicKey\<close> wraps the bytes of an address (32 of them for every key web3.js
  constructs). The three program identifiers the SDK imports are public constants
  (\<^verbatim>\<open>11111111111111111111111111111111\<close>, \<^verbatim>\<open>TokenkegQfeZyiNwAJbNbGKPFXCWuBvf9Ss623VQ5DA\<close>
  and \<^verbatim>\<open>TokenzQdBNbLqP5VEhdkAS6EPFLC1PHnBqCXEpPxuEb\<close> in base 58).
\<close>

datatype PublicKey = PublicKey (toBuffer: buffer)

definition SystemProgram_programId :: PublicKey where
  "SystemProgram_programId = PublicKey (replicate 32 0)"

definition TOKEN_PROGRAM_ID :: PublicKey where
  "TOKEN_PROGRAM_ID = PublicKey
     [6, 221, 246, 225, 215, 101, 161, 147, 217, 203, 225, 70, 206, 235, 121, 172,
      28, 180, 133, 237, 95, 91, 55, 145, 58, 140, 245, 133, 126, 255, 0, 169]"

definition TOKEN_2022_PROGRAM_ID :: PublicKey where
  "TOKEN_2022_PROGRAM_ID = PublicKey
     [6, 221, 246, 225, 238, 117, 143, 222, 24, 66, 93, 188, 228, 108, 205, 218,
      182, 26, 252, 77, 131, 185, 13, 39, 254, 189, 249, 40, 216, 161, 139, 252]"

subsection \<open>Program-derived addresses (web3.js)\<close>

text \<open>
  \<^verbatim>\<open>createProgramAddressSync\<close> hashes the seeds, the program identifier and a fixed
  marker with SHA-256 and refuses a hash that is a point of the Ed25519 curve.
  \<^verbatim>\<open>findProgramAddressSync\<close> appends a one-byte nonce to the seeds and tries
  \<^verbatim>\<open>nonce = 255\<close> downwards \<^verbatim>\<open>while (nonce != 0)\<close>; a \<^verbatim>\<open>TypeError\<close> (a seed longer
  than 32 bytes) is rethrown, every other failure moves on to the next nonce.
  The hash and the curve test are the library's; the model takes them as parameters.
\<close>

record Crypto =
  sha256 :: "buffer \<Rightarrow> buffer"
  isOnCurve :: "buffer \<Rightarrow> bool"

definition MAX_SEED_LENGTH :: nat where
  "MAX_SEED_LENGTH = 32"

definition Buffer_from :: "string \<Rightarrow> buffer" where
  "Buffer_from s = map of_char s"

definition createProgramAddressSync :: "Crypto \<Rightarrow> buffer list \<Rightarrow> PublicKey \<Rightarrow> error + PublicKey" where
  "createProgramAddressSync cr seeds programId =
     (if list_ex (\<lambda>seed. MAX_SEED_LENGTH < length seed) seeds then Inl MaxSeedLengthExceeded
      else
        let buffer = concat seeds @ toBuffer programId @ Buffer_from ''ProgramDerivedAddress'';
            publicKeyBytes = sha256 cr buffer
        in if isOnCurve cr publicKeyBytes then Inl AddressOnCurve
           else Inr (PublicKey publicKeyBytes))"

fun findNonce :: "Crypto \<Rightarrow> buffer list \<Rightarrow> PublicKey \<Rightarrow> nat \<Rightarrow> error + (PublicKey \<times> nat)" where
  "findNonce cr seeds programId 0 = Inl NoViableNonce"
| "findNonce cr seeds programId (Suc n) =
     (case createProgramAddressSync cr (seeds @ [[of_nat (Suc n)]]) programId of
        Inr address \<Rightarrow> Inr (address, Suc n)
      | Inl e \<Rightarrow>
          if e = MaxSeedLengthExceeded then Inl e
          else findNonce cr seeds programId n)"

definition findProgramAddressSync :: "Crypto \<Rightarrow> buffer list \<Rightarrow> PublicKey \<Rightarrow> error + (PublicKey \<times> nat)" where
  "findProgramAddressSync cr seeds programId = findNonce cr seeds programId 255"

section \<open>Transactions and Anchor's method builder\<close>

record AccountMeta =
  pubkey :: PublicKey
  isSigner :: bool
  isWritable :: bool

text \<open>
  The instruction data of a program call is Anchor's encoding of the method name and its
  arguments. The coder is not modelled: \<open>data\<close> holds the call it encodes.
\<close>

datatype ix_arg = PublicKeyArg PublicKey | BytesArg buffer

datatype ix_data = Call string "ix_arg list"

record TransactionInstruction =
  keys :: "AccountMeta list"
  programId :: PublicKey
  data :: ix_data

text \<open>
  \<^verbatim>\<open>new Transaction()\<close> has no fee payer, no recent blockhash and no instructions.
\<close>

record Transaction =
  feePayer :: "PublicKey option"
  recentBlockhash :: "string option"
  instructions :: "TransactionInstruction list"

text \<open>
  The IDL (\<^verbatim>\<open>import idl from './idl/smart_account.json'\<close>) gives the program's address
  and, for every instruction, its named accounts in order, each with its writable and signer
  flag. The file is not part of the sources: the IDL is a parameter of the model.
\<close>

record IdlAccount =
  acc_name :: string
  acc_writable :: bool
  acc_signer :: bool

record IdlInstruction =
  ix_name :: string
  ix_accounts :: "IdlAccount list"

record Idl =
  address :: PublicKey
  idl_instructions :: "IdlInstruction list"

record Connection =
  rpcEndpoint :: string

text \<open>
  The wallet of the constructor's provider is the "dummy" wallet: it has the user's public
  key, and both of its signing functions reject.
\<close>

record Wallet =
  wallet_publicKey :: PublicKey

record AnchorProvider =
  provider_connection :: Connection
  provider_wallet :: Wallet
  preflightCommitment :: string

record Program =
  program_idl :: Idl
  program_provider :: AnchorProvider

definition Program_programId :: "Program \<Rightarrow> PublicKey" where
  "Program_programId prog = address (program_idl prog)"

text \<open>
  What lies outside an SDK instance: Anchor's process-wide provider (the module variable
  \<^verbatim>\<open>setProvider\<close> assigns), the accounts of the cluster as \<^verbatim>\<open>fetch\<close> decodes them, and
  the log of the asynchronous steps taken so far, the only points at which a call may reach
  the cluster: the builder's \<^verbatim>\<open>transaction()\<close> (which resolves accounts) and
  \<^verbatim>\<open>account.fetch\<close>.
\<close>

record SmartAccountState =
  state_owner :: PublicKey
  state_delegates :: "PublicKey list"
  state_paused :: bool

datatype event = MethodsTransaction string | AccountFetch PublicKey

record World =
  currentProvider :: "AnchorProvider option"
  ledger :: "(PublicKey \<times> SmartAccountState) list"
  trace :: "event list"

definition setProvider :: "AnchorProvider \<Rightarrow> World \<Rightarrow> World" where
  "setProvider p w = w\<lparr>currentProvider := Some p\<rparr>"

text \<open>
  \<^verbatim>\<open>program.methods.m(args).accounts(accs).remainingAccounts(rest).transaction()\<close>:
  the instruction \<open>m\<close> of the IDL names the accounts; each is looked up in \<open>accs\<close> and takes
  its flags from the IDL; \<open>rest\<close> is appended as given; the one instruction is added to a
  new transaction. A method the IDL does not have is \<^verbatim>\<open>undefined\<close>, and calling it throws
  before the builder exists.
\<close>

fun accountsArray :: "(string \<times> PublicKey) list \<Rightarrow> IdlAccount list \<Rightarrow> error + AccountMeta list" where
  "accountsArray ctx [] = Inr []"
| "accountsArray ctx (acc # accs) =
     (case map_of ctx (acc_name acc) of
        None \<Rightarrow> Inl (AccountNotProvided (acc_name acc))
      | Some k \<Rightarrow>
          andThen (accountsArray ctx accs) (\<lambda>metas.
            Inr (\<lparr>pubkey = k, isSigner = acc_signer acc, isWritable = acc_writable acc\<rparr> # metas)))"

definition idl_instruction :: "Idl \<Rightarrow> string \<Rightarrow> IdlInstruction option" where
  "idl_instruction idl m = find (\<lambda>ix. ix_name ix = m) (idl_instructions idl)"

definition methods_transaction ::
  "Program \<Rightarrow> string \<Rightarrow> ix_arg list \<Rightarrow> (string \<times> PublicKey) list \<Rightarrow> AccountMeta list \<Rightarrow> World
     \<Rightarrow> (error + Transaction) \<times> World" where
  "methods_transaction prog m args accs remainingAccounts w =
     (case idl_instruction (program_idl prog) m of
        None \<Rightarrow> (Inl (NoSuchMethod m), w)
      | Some idlIx \<Rightarrow>
          (andThen (accountsArray accs (ix_accounts idlIx)) (\<lambda>ks.
             Inr \<lparr>feePayer = None, recentBlockhash = None,
                  instructions =
                    [\<lparr>keys = ks @ remainingAccounts,
                      programId = Program_programId prog,
                      data = Call m args\<rparr>]\<rparr>),
           w\<lparr>trace := trace w @ [MethodsTransaction m]\<rparr>))"

section \<open>The class \<^verbatim>\<open>SmartAccountSDK\<close>\<close>

record SmartAccountSDK =
  program :: Program
  provider :: AnchorProvider
  connection :: Connection
  userPublicKey :: PublicKey

text \<open>
  The constructor (lines 33 to 50). Besides building the instance it calls
  \<^verbatim>\<open>anchor.setProvider(this.provider)\<close>.
\<close>

definition SmartAccountSDK_new :: "Idl \<Rightarrow> Connection \<Rightarrow> PublicKey \<Rightarrow> World \<Rightarrow> SmartAccountSDK \<times> World" where
  "SmartAccountSDK_new idl conn user w =
     (let dummyWallet = \<lparr>wallet_publicKey = user\<rparr>;
          prov = \<lparr>provider_connection = conn, provider_wallet = dummyWallet,
                  preflightCommitment = ''confirmed''\<rparr>;
          w' = setProvider prov w;
          prog = \<lparr>program_idl = idl, program_provider = prov\<rparr>
      in (\<lparr>program = prog, provider = prov, connection = conn, userPublicKey = user\<rparr>, w'))"

definition findSmartAccountPDA :: "Crypto \<Rightarrow> SmartAccountSDK \<Rightarrow> PublicKey \<Rightarrow> error + (PublicKey \<times> nat)" where
  "findSmartAccountPDA cr sdk owner =
     findProgramAddressSync cr [Buffer_from ''smart'', toBuffer owner]
       (Program_programId (program sdk))"

definition getSmartAccountState ::
  "SmartAccountSDK \<Rightarrow> PublicKey \<Rightarrow> World \<Rightarrow> (error + SmartAccountState) \<times> World" where
  "getSmartAccountState sdk smartAccountAddress w =
     ((case map_of (ledger w) smartAccountAddress of
         None \<Rightarrow> Inl AccountDoesNotExist
       | Some st \<Rightarrow> Inr st),
      w\<lparr>trace := trace w @ [AccountFetch smartAccountAddress]\<rparr>)"

text \<open>
  The composer methods. An optional \<^verbatim>\<open>owner\<close> is \<open>None\<close> when the caller leaves it out:
  \<^verbatim>\<open>owner || this.userPublicKey\<close>.
\<close>

definition initialize ::
  "Crypto \<Rightarrow> SmartAccountSDK \<Rightarrow> PublicKey option \<Rightarrow> World \<Rightarrow> (error + Transaction) \<times> World" where
  "initialize cr sdk owner w =
     (let ownerKey = (case owner of Some k \<Rightarrow> k | None \<Rightarrow> userPublicKey sdk) in
      case findSmartAccountPDA cr sdk ownerKey of
        Inl e \<Rightarrow> (Inl e, w)
      | Inr (smartAccountPDA, bump) \<Rightarrow>
          methods_transaction (program sdk) ''initialize'' []
            [(''smartAccount'', smartAccountPDA),
             (''owner'', ownerKey),
             (''systemProgram'', SystemProgram_programId)]
            [] w)"

definition addDelegate ::
  "Crypto \<Rightarrow> SmartAccountSDK \<Rightarrow> PublicKey \<Rightarrow> PublicKey option \<Rightarrow> World
     \<Rightarrow> (error + Transaction) \<times> World" where
  "addDelegate cr sdk delegate owner w =
     (let ownerKey = (case owner of Some k \<Rightarrow> k | None \<Rightarrow> userPublicKey sdk) in
      case findSmartAccountPDA cr sdk ownerKey of
        Inl e \<Rightarrow> (Inl e, w)
      | Inr (smartAccountPDA, bump) \<Rightarrow>
          methods_transaction (program sdk) ''addDelegate'' [PublicKeyArg delegate]
            [(''smartAccount'', smartAccountPDA), (''owner'', ownerKey)]
            [] w)"

definition removeDelegate ::
  "Crypto \<Rightarrow> SmartAccountSDK \<Rightarrow> PublicKey \<Rightarrow> PublicKey option \<Rightarrow> World
     \<Rightarrow> (error + Transaction) \<times> World" where
  "removeDelegate cr sdk delegate owner w =
     (let ownerKey = (case owner of Some k \<Rightarrow> k | None \<Rightarrow> userPublicKey sdk) in
      case findSmartAccountPDA cr sdk ownerKey of
        Inl e \<Rightarrow> (Inl e, w)
      | Inr (smartAccountPDA, bump) \<Rightarrow>
          methods_transaction (program sdk) ''removeDelegate'' [PublicKeyArg delegate]
            [(''smartAccount'', smartAccountPDA), (''owner'', ownerKey)]
            [] w)"

definition pause ::
  "Crypto \<Rightarrow> SmartAccountSDK \<Rightarrow> PublicKey option \<Rightarrow> World \<Rightarrow> (error + Transaction) \<times> World" where
  "pause cr sdk owner w =
     (let ownerKey = (case owner of Some k \<Rightarrow> k | None \<Rightarrow> userPublicKey sdk) in
      case findSmartAccountPDA cr sdk ownerKey of
        Inl e \<Rightarrow> (Inl e, w)
      | Inr (smartAccountPDA, bump) \<Rightarrow>
          methods_transaction (program sdk) ''pause'' []
            [(''smartAccount'', smartAccountPDA), (''owner'', ownerKey)]
            [] w)"

definition unpause ::
  "Crypto \<Rightarrow> SmartAccountSDK \<Rightarrow> PublicKey option \<Rightarrow> World \<Rightarrow> (error + Transaction) \<times> World" where
  "unpause cr sdk owner w =
     (let ownerKey = (case owner of Some k \<Rightarrow> k | None \<Rightarrow> userPublicKey sdk) in
      case findSmartAccountPDA cr sdk ownerKey of
        Inl e \<Rightarrow> (Inl e, w)
      | Inr (smartAccountPDA, bump) \<Rightarrow>
          methods_transaction (program sdk) ''unpause'' []
            [(''smartAccount'', smartAccountPDA), (''owner'', ownerKey)]
            [] w)"

definition executeSolTransfer ::
  "Crypto \<Rightarrow> SmartAccountSDK \<Rightarrow> PublicKey \<Rightarrow> PublicKey \<Rightarrow> PublicKey \<Rightarrow> amount \<Rightarrow> World
     \<Rightarrow> (error + Transaction) \<times> World" where
  "executeSolTransfer cr sdk smartAccountOwner delegate recipient lamports w =
     (case findSmartAccountPDA cr sdk smartAccountOwner of
        Inl e \<Rightarrow> (Inl e, w)
      | Inr (smartAccountPDA, bump) \<Rightarrow>
          (case solTransferData lamports of
             Inl e \<Rightarrow> (Inl e, w)
           | Inr instructionData \<Rightarrow>
               methods_transaction (program sdk) ''execute'' [BytesArg instructionData]
                 [(''smartAccount'', smartAccountPDA), (''delegate'', delegate)]
                 [\<lparr>pubkey = SystemProgram_programId, isSigner = False, isWritable = False\<rparr>,
                  \<lparr>pubkey = smartAccountPDA, isSigner = False, isWritable = True\<rparr>,
                  \<lparr>pubkey = recipient, isSigner = False, isWritable = True\<rparr>]
                 w))"

text \<open>
  \<^verbatim>\<open>useToken2022: boolean = false\<close>: the flag is \<open>None\<close> when the caller leaves it out.
\<close>

definition executeTokenTransfer ::
  "Crypto \<Rightarrow> SmartAccountSDK \<Rightarrow> PublicKey \<Rightarrow> PublicKey \<Rightarrow> PublicKey \<Rightarrow> PublicKey \<Rightarrow> amount
     \<Rightarrow> bool option \<Rightarrow> World \<Rightarrow> (error + Transaction) \<times> World" where
  "executeTokenTransfer cr sdk smartAccountOwner delegate fromTokenAccount toTokenAccount
       amount useToken2022 w =
     (case findSmartAccountPDA cr sdk smartAccountOwner of
        Inl e \<Rightarrow> (Inl e, w)
      | Inr (smartAccountPDA, bump) \<Rightarrow>
          (case tokenTransferData amount of
             Inl e \<Rightarrow> (Inl e, w)
           | Inr instructionData \<Rightarrow>
               let tokenProgramId =
                     (if (case useToken2022 of None \<Rightarrow> False | Some f \<Rightarrow> f)
                      then TOKEN_2022_PROGRAM_ID else TOKEN_PROGRAM_ID)
               in methods_transaction (program sdk) ''execute'' [BytesArg instructionData]
                    [(''smartAccount'', smartAccountPDA), (''delegate'', delegate)]
                    [\<lparr>pubkey = tokenProgramId, isSigner = False, isWritable = False\<rparr>,
                     \<lparr>pubkey = fromTokenAccount, isSigner = False, isWritable = True\<rparr>,
                     \<lparr>pubkey = toTokenAccount, isSigner = False, isWritable = True\<rparr>,
                     \<lparr>pubkey = smartAccountPDA, isSigner = False, isWritable = False\<rparr>]
                    w))"

definition executeCustomInstruction ::
  "Crypto \<Rightarrow> SmartAccountSDK \<Rightarrow> PublicKey \<Rightarrow> PublicKey \<Rightarrow> PublicKey \<Rightarrow> buffer
     \<Rightarrow> AccountMeta list \<Rightarrow> World \<Rightarrow> (error + Transaction) \<times> World" where
  "executeCustomInstruction cr sdk smartAccountOwner delegate targetProgram instructionData
       remainingAccounts w =
     (case findSmartAccountPDA cr sdk smartAccountOwner of
        Inl e \<Rightarrow> (Inl e, w)
      | Inr (smartAccountPDA, bump) \<Rightarrow>
          methods_transaction (program sdk) ''execute'' [BytesArg instructionData]
            [(''smartAccount'', smartAccountPDA), (''delegate'', delegate)]
            (\<lparr>pubkey = targetProgram, isSigner = False, isWritable = False\<rparr> # remainingAccounts)
            w)"

section \<open>Notions the properties are stated with\<close>

text \<open>
  An integer as \<open>n\<close> bytes, least significant first: byte \<open>i\<close> holds \<open>v div 256^i\<close>
  modulo 256. \<open>le_value\<close> reads such bytes back.
\<close>

definition le_bytes :: "nat \<Rightarrow> int \<Rightarrow> buffer" where
  "le_bytes n v = map (\<lambda>i. word_of_int (v div 256 ^ i)) [0..<n]"

fun le_value :: "buffer \<Rightarrow> int" where
  "le_value [] = 0"
| "le_value (b # bs) = uint b + 256 * le_value bs"

text \<open>
  The two payload layouts in the words of the specification: a 4-byte little-endian
  selector 2, respectively a 1-byte selector 3, followed by the amount as 8 bytes
  little-endian.
\<close>

definition nativeTransferEncoding :: "int \<Rightarrow> buffer" where
  "nativeTransferEncoding v = le_bytes 4 2 @ le_bytes 8 v"

definition tokenTransferEncoding :: "int \<Rightarrow> buffer" where
  "tokenTransferEncoding v = le_bytes 1 3 @ le_bytes 8 v"

text \<open>
  An amount stands for the integer \<open>v\<close> when it is a \<^verbatim>\<open>BN\<close> that denotes \<open>v\<close> or
  the number \<open>v\<close>; \<open>is_number\<close> tells which of the two it is.
\<close>

definition stands_for :: "amount \<Rightarrow> int \<Rightarrow> bool" where
  "stands_for a v = (case a of BigNum b \<Rightarrow> BN_int b = v | Number n \<Rightarrow> n = Finite (of_int v))"

definition is_number :: "amount \<Rightarrow> bool" where
  "is_number a = (case a of BigNum b \<Rightarrow> False | Number n \<Rightarrow> True)"

text \<open>
  The amounts the two transfer methods turn away: a \<^verbatim>\<open>BN\<close> that denotes an integer
  outside \<open>0 .. 2^64 - 1\<close>, a number that is at most \<open>-1\<close> or greater than \<open>2^64 - 1\<close>,
  and the two infinities.
\<close>

definition out_of_range :: "amount \<Rightarrow> bool" where
  "out_of_range a =
     (case a of
        BigNum b \<Rightarrow> BN_int b < 0 \<or> 0xffffffffffffffff < BN_int b
      | Number n \<Rightarrow>
          (case n of
             Finite q \<Rightarrow> q \<le> - 1 \<or> 0xffffffffffffffff < q
           | NaN \<Rightarrow> False
           | PosInfinity \<Rightarrow> True
           | NegInfinity \<Rightarrow> True))"

text \<open>
  The outcome of a composer method leaves the fee payer and the recent blockhash unset when
  it is an error, or a transaction with neither field set.
\<close>

definition leaves_unset :: "(error + Transaction) \<times> World \<Rightarrow> bool" where
  "leaves_unset r =
     (case fst r of Inl e \<Rightarrow> True | Inr tx \<Rightarrow> feePayer tx = None \<and> recentBlockhash tx = None)"

text \<open>
  Two worlds agree on the state shared beyond an instance: the process-wide provider and
  the accounts of the cluster. (The log of asynchronous steps only records what was read.)
\<close>

definition same_shared_state :: "World \<Rightarrow> World \<Rightarrow> bool" where
  "same_shared_state w w' = (currentProvider w' = currentProvider w \<and> ledger w' = ledger w)"

text \<open>
  Modelled from the spec: the IDL file \<^verbatim>\<open>src/idl/smart_account.json\<close> is missing from the
  sources, so the account schema of each instruction is the table of section 4.3 of the
  specification (with section 8 for the system program): the accounts in the order given, a
  signer exactly where the table says "(signer)", writable where it says "(writable)",
  read-only where it says "(readonly)". Where the table is silent on writability (the owner,
  the delegate, and the smart account of \<^verbatim>\<open>execute\<close>) the flag is left open.
\<close>

definition initialize_accounts :: "IdlAccount list \<Rightarrow> bool" where
  "initialize_accounts accs \<longleftrightarrow>
     map acc_name accs = [''smartAccount'', ''owner'', ''systemProgram''] \<and>
     map acc_signer accs = [False, True, False] \<and>
     acc_writable (accs ! 0) \<and> \<not> acc_writable (accs ! 2)"

definition owner_accounts :: "IdlAccount list \<Rightarrow> bool" where
  "owner_accounts accs \<longleftrightarrow>
     map acc_name accs = [''smartAccount'', ''owner''] \<and>
     map acc_signer accs = [False, True] \<and>
     acc_writable (accs ! 0)"

definition execute_accounts :: "IdlAccount list \<Rightarrow> bool" where
  "execute_accounts accs \<longleftrightarrow>
     map acc_name accs = [''smartAccount'', ''delegate''] \<and>
     map acc_signer accs = [False, True]"

definition has_accounts :: "Idl \<Rightarrow> string \<Rightarrow> (IdlAccount list \<Rightarrow> bool) \<Rightarrow> bool" where
  "has_accounts idl m P =
     (case idl_instruction idl m of None \<Rightarrow> False | Some idlIx \<Rightarrow> P (ix_accounts idlIx))"

definition smart_account_schema :: "Idl \<Rightarrow> bool" where
  "smart_account_schema idl \<longleftrightarrow>
     has_accounts idl ''initialize'' initialize_accounts \<and>
     has_accounts idl ''addDelegate'' owner_accounts \<and>
     has_accounts idl ''removeDelegate'' owner_accounts \<and>
     has_accounts idl ''pause'' owner_accounts \<and>
     has_accounts idl ''unpause'' owner_accounts \<and>
     has_accounts idl ''execute'' execute_accounts"

subsection \<open>Concrete inputs\<close>

text \<open>
  Values on which the model is evaluated. \<open>toy_crypto\<close> stands in for the two primitives:
  its "hash" is 32 bytes of its input that end with the nonce, and it calls a hash on the
  curve when its last byte is odd, so the search rejects nonce 255 and accepts 254. It is
  not SHA-256. \<open>example_idl\<close> follows the schema above; its address is the program
  identifier of the README.
\<close>

definition toy_crypto :: Crypto where
  "toy_crypto = \<lparr>sha256 = (\<lambda>b. take 32 (drop 6 b)), isOnCurve = (\<lambda>h. odd (unat (last h)))\<rparr>"

definition example_idl :: Idl where
  "example_idl =
     \<lparr>address = PublicKey
        [89, 232, 193, 196, 93, 211, 109, 77, 16, 124, 165, 27, 70, 189, 26, 140,
         34, 145, 95, 128, 5, 153, 200, 142, 137, 3, 79, 89, 41, 252, 73, 194],
      idl_instructions =
        [\<lparr>ix_name = ''initialize'',
          ix_accounts =
            [\<lparr>acc_name = ''smartAccount'', acc_writable = True, acc_signer = False\<rparr>,
             \<lparr>acc_name = ''owner'', acc_writable = True, acc_signer = True\<rparr>,
             \<lparr>acc_name = ''systemProgram'', acc_writable = False, acc_signer = False\<rparr>]\<rparr>,
         \<lparr>ix_name = ''addDelegate'',
          ix_accounts =
            [\<lparr>acc_name = ''smartAccount'', acc_writable = True, acc_signer = False\<rparr>,
             \<lparr>acc_name = ''owner'', acc_writable = False, acc_signer = True\<rparr>]\<rparr>,
         \<lparr>ix_name = ''removeDelegate'',
          ix_accounts =
            [\<lparr>acc_name = ''smartAccount'', acc_writable = True, acc_signer = False\<rparr>,
             \<lparr>acc_name = ''owner'', acc_writable = False, acc_signer = True\<rparr>]\<rparr>,
         \<lparr>ix_name = ''pause'',
          ix_accounts =
            [\<lparr>acc_name = ''smartAccount'', acc_writable = True, acc_signer = False\<rparr>,
             \<lparr>acc_name = ''owner'', acc_writable = False, acc_signer = True\<rparr>]\<rparr>,
         \<lparr>ix_name = ''unpause'',
          ix_accounts =
            [\<lparr>acc_name = ''smartAccount'', acc_writable = True, acc_signer = False\<rparr>,
             \<lparr>acc_name = ''owner'', acc_writable = False, acc_signer = True\<rparr>]\<rparr>,
         \<lparr>ix_name = ''execute'',
          ix_accounts =
            [\<lparr>acc_name = ''smartAccount'', acc_writable = False, acc_signer = False\<rparr>,
             \<lparr>acc_name = ''delegate'', acc_writable = False, acc_signer = True\<rparr>]\<rparr>]\<rparr>"

definition alice :: PublicKey where
  "alice = PublicKey (replicate 32 1)"

definition bob :: PublicKey where
  "bob = PublicKey (replicate 32 2)"

definition carol :: PublicKey where
  "carol = PublicKey (replicate 32 3)"

definition dave :: PublicKey where
  "dave = PublicKey (replicate 32 4)"

definition fresh_world :: World where
  "fresh_world = \<lparr>currentProvider = None, ledger = [], trace = []\<rparr>"

definition devnet :: Connection where
  "devnet = \<lparr>rpcEndpoint = ''https://api.devnet.solana.com''\<rparr>"

definition example_sdk :: SmartAccountSDK where
  "example_sdk = fst (SmartAccountSDK_new example_idl devnet alice fresh_world)"

definition localnet :: Connection where
  "localnet = \<lparr>rpcEndpoint = ''http://127.0.0.1:8899''\<rparr>"

text \<open>A second instance for the same program: another user, another endpoint, a later world.\<close>

definition other_sdk :: SmartAccountSDK where
  "other_sdk =
     fst (SmartAccountSDK_new example_idl localnet carol
            (snd (SmartAccountSDK_new example_idl devnet alice fresh_world)))"

text \<open>The address \<open>toy_crypto\<close> derives for \<open>bob\<close> under \<open>example_idl\<close>.\<close>

definition bob_pda :: PublicKey where
  "bob_pda = PublicKey (replicate 31 2 @ [254])"

section \<open>Facts about the library layer\<close>

lemma andThen_Inr: "andThen (Inr x) f = f x"
  by (simp add: andThen_def)

lemma andThen_Inl: "andThen (Inl e) f = Inl e"
  by (simp add: andThen_def)

subsection \<open>A number becomes the \<^verbatim>\<open>BN\<close> of its integer part\<close>

lemma and_mask26: "signed_take_bit 31 k AND (0x3ffffff::int) = take_bit 26 k"
proof -
  have m: "(0x3ffffff::int) = mask 26"
    by (simp add: mask_eq_exp_minus_1)
  show ?thesis
    unfolding m
    by (rule bit_eqI)
      (auto simp: bit_and_iff bit_mask_iff bit_signed_take_bit_iff bit_take_bit_iff)
qed

lemma js_truncate_nonneg: "0 \<le> a \<Longrightarrow> js_truncate a = \<lfloor>a\<rfloor>"
  by (simp add: js_truncate_def)

lemma js_truncate_of_int: "js_truncate (of_int v) = v"
  by (simp add: js_truncate_def)

lemma floor_rat_divide:
  fixes q :: rat and b :: int
  assumes "0 \<le> b"
  shows "\<lfloor>q / of_int b\<rfloor> = \<lfloor>q\<rfloor> div b"
proof -
  have "\<lfloor>q / of_int b\<rfloor> = \<lfloor>(of_rat (q / of_int b) :: real)\<rfloor>"
    by simp
  also have "\<dots> = \<lfloor>(of_rat q :: real) / real_of_int b\<rfloor>"
    by (simp add: of_rat_divide)
  also have "\<dots> = \<lfloor>(of_rat q :: real)\<rfloor> div b"
    by (rule floor_divide_real_eq_div [OF assms])
  finally show ?thesis
    by simp
qed

lemma js_bitand_limb: "js_bitand (Finite q) 0x3ffffff = js_truncate q mod 0x4000000"
  by (simp add: js_bitand_def and_mask26 take_bit_eq_mod)

lemma floor_div_limb: "\<lfloor>(a::rat) / 0x4000000\<rfloor> = \<lfloor>a\<rfloor> div 0x4000000"
  using floor_rat_divide [of "0x4000000" a] by simp

lemma limb0: "0 \<le> a \<Longrightarrow> nat (js_bitand (Finite a) 0x3ffffff) = nat (\<lfloor>a\<rfloor> mod 0x4000000)"
  by (simp only: js_bitand_limb js_truncate_nonneg)

lemma limb1: 
  assumes "0 \<le> a" 
  shows "nat (js_bitand (js_divide (Finite a) 0x4000000) 0x3ffffff) = nat (\<lfloor>a\<rfloor> div 0x4000000 mod 0x4000000)"
proof -
  have "0 \<le> a / 0x4000000" using assms by simp
  then show ?thesis
    by (simp only: js_divide.simps js_bitand_limb js_truncate_nonneg floor_div_limb)
qed

lemma magnitude1:
  fixes k :: int
  assumes "0 \<le> k" "k < 0x4000000"
  shows "magnitude [nat (k mod 0x4000000)] = nat k"
  using assms by simp

lemma magnitude2:
  fixes k :: int
  assumes "0 \<le> k" "k < 0x10000000000000"
  shows "magnitude [nat (k mod 0x4000000), nat (k div 0x4000000 mod 0x4000000)] = nat k"
proof -
  define d where "d = k div 0x4000000"
  define m where "m = k mod 0x4000000"
  have k: "k = 0x4000000 * d + m"
    by (simp add: d_def m_def)
  have m: "0 \<le> m" "m < 0x4000000"
    by (simp_all add: m_def)
  have d: "0 \<le> d" "d < 0x4000000"
    using assms k m by linarith+
  have dd: "d mod 0x4000000 = d"
    using d by simp
  have "magnitude [nat m, nat d] = nat m + 0x4000000 * nat d"
    by simp
  also have "\<dots> = nat (m + 0x4000000 * d)"
    using m(1) d(1) by (simp add: nat_add_distrib nat_mult_distrib)
  also have "\<dots> = nat k"
    by (simp only: k add.commute)
  finally have "magnitude [nat m, nat (d mod 0x4000000)] = nat k"
    by (simp only: dd)
  then show ?thesis
    unfolding d_def m_def .
qed

lemma magnitude3:
  fixes k :: int
  assumes "0x10000000000000 \<le> k" "k < 0x20000000000000"
  shows "magnitude [nat (k mod 0x4000000), nat (k div 0x4000000 mod 0x4000000), 1] = nat k"
proof -
  define d where "d = k div 0x4000000"
  define m where "m = k mod 0x4000000"
  define e where "e = d mod 0x4000000"
  have k: "k = 0x4000000 * d + m"
    by (simp add: d_def m_def)
  have m: "0 \<le> m" "m < 0x4000000"
    by (simp_all add: m_def)
  have d: "0x4000000 \<le> d" "d < 0x8000000"
    using assms k m by linarith+
  have "(d - 0x4000000) mod 0x4000000 = d - 0x4000000"
    by (rule mod_pos_pos_trivial) (use d in simp_all)
  then have e: "e = d - 0x4000000"
    unfolding e_def by simp
  have e0: "0 \<le> e"
    using e d by simp
  have "magnitude [nat m, nat e, 1] = nat m + 0x4000000 * (nat e + 0x4000000)"
    by simp
  also have "\<dots> = nat (m + 0x4000000 * (e + 0x4000000))"
    using m(1) e0 by (simp add: nat_add_distrib nat_mult_distrib)
  also have "\<dots> = nat k"
  proof -
    have "e + 0x4000000 = d"
      using e by simp
    then show ?thesis
      by (simp only: k add.commute)
  qed
  finally show ?thesis
    unfolding e_def d_def m_def .
qed

lemma initNumber_nonneg:
  assumes "0 \<le> a" "a < 0x20000000000000"
  shows "\<exists>ws. magnitude ws = nat \<lfloor>a\<rfloor> \<and>
    (if js_less (Finite a) 0x4000000 then
           Inr \<lparr>negative = neg, words = [nat (js_bitand (Finite a) 0x3ffffff)]\<rparr>
         else if js_less (Finite a) 0x10000000000000 then
           Inr \<lparr>negative = neg,
                words = [nat (js_bitand (Finite a) 0x3ffffff),
                         nat (js_bitand (js_divide (Finite a) 0x4000000) 0x3ffffff)]\<rparr>
         else if js_less (Finite a) 0x20000000000000 then
           Inr \<lparr>negative = neg,
                words = [nat (js_bitand (Finite a) 0x3ffffff),
                         nat (js_bitand (js_divide (Finite a) 0x4000000) 0x3ffffff),
                         1]\<rparr>
         else Inl AssertionError) = Inr \<lparr>negative = neg, words = ws\<rparr>"
proof -
  have k0: "0 \<le> \<lfloor>a\<rfloor>"
    using assms by simp
  note limbs = limb0 [OF assms(1)] limb1 [OF assms(1)]
  consider "a < 0x4000000" | "\<not> a < 0x4000000" "a < 0x10000000000000" | "\<not> a < 0x4000000" "\<not> a < 0x10000000000000"
    by blast
  then show ?thesis
  proof cases
    case 1
    then have "\<lfloor>a\<rfloor> < 0x4000000"
      by (simp add: floor_less_iff)
    from magnitude1 [OF k0 this] 1 show ?thesis
      by (simp only: js_less.simps limbs if_True) blast
  next
    case 2
    then have "\<lfloor>a\<rfloor> < 0x10000000000000"
      by (simp add: floor_less_iff)
    from magnitude2 [OF k0 this] 2 show ?thesis
      by (simp only: js_less.simps limbs if_True if_False) blast
  next
    case 3
    then have "0x10000000000000 \<le> \<lfloor>a\<rfloor>"
      by (simp add: le_floor_iff)
    moreover have "\<lfloor>a\<rfloor> < 0x20000000000000"
      using assms by (simp add: floor_less_iff)
    ultimately have "magnitude [nat (\<lfloor>a\<rfloor> mod 0x4000000), nat (\<lfloor>a\<rfloor> div 0x4000000 mod 0x4000000), 1] = nat \<lfloor>a\<rfloor>"
      by (rule magnitude3)
    with 3 assms(2) show ?thesis
      by (simp only: js_less.simps limbs if_True if_False) blast
  qed
qed

lemma initNumber_Finite_Inr:
  assumes "\<bar>q\<bar> < 0x20000000000000"
  shows "\<exists>b. initNumber (Finite q) = Inr b \<and> negative b = (if q < 0 then 1 else 0)
           \<and> magnitude (words b) = nat \<lfloor>\<bar>q\<bar>\<rfloor>"
proof (cases "q < 0")
  case True
  with assms initNumber_nonneg [of "- q" 1] show ?thesis
    by (auto simp: initNumber_def Let_def)
next
  case False
  with assms initNumber_nonneg [of q 0] show ?thesis
    by (auto simp: initNumber_def Let_def)
qed

lemma initNumber_Finite_Inl:
  assumes "0x20000000000000 \<le> \<bar>q\<bar>"
  shows "initNumber (Finite q) = Inl AssertionError"
  using assms by (auto simp: initNumber_def Let_def)

lemma initNumber_not_finite:
  "initNumber NaN = Inl AssertionError"
  "initNumber PosInfinity = Inl AssertionError"
  "initNumber NegInfinity = Inl AssertionError"
  by (simp_all add: initNumber_def)

text \<open>
  The \<^verbatim>\<open>BN\<close> of a finite number below \<open>2^53\<close> in absolute value denotes the number's
  integer part (truncation toward zero).
\<close>

lemma BN_new_Finite: "BN_new (Finite q) = initNumber (Finite q)"
  by (simp add: BN_new_def)

lemma BN_new_not_finite:
  "BN_new NaN = initNumber (Finite 0)"
  "BN_new PosInfinity = Inl AssertionError"
  "BN_new NegInfinity = Inl AssertionError"
  by (simp_all add: BN_new_def initNumber_not_finite)

lemma initNumber_int:
  assumes "\<bar>q\<bar> < 0x20000000000000"
  shows "\<exists>b. initNumber (Finite q) = Inr b \<and> BN_int b = js_truncate q"
proof -
  obtain b where b: "initNumber (Finite q) = Inr b" "negative b = (if q < 0 then 1 else 0)"
      "magnitude (words b) = nat \<lfloor>\<bar>q\<bar>\<rfloor>"
    using initNumber_Finite_Inr [OF assms] by blast
  have "BN_int b = js_truncate q"
    using b(2,3) by (simp add: BN_int_def js_truncate_def)
  with b(1) show ?thesis
    by blast
qed

subsection \<open>\<^verbatim>\<open>BigInt(bn.toString())\<close> is the integer the \<^verbatim>\<open>BN\<close> denotes\<close>

lemma of_char_digit_char: "d < 10 \<Longrightarrow> (of_char (digit_char d) :: nat) = 48 + d"
  by (simp add: digit_char_def)

lemma is_digit_digit_char: "d < 10 \<Longrightarrow> is_digit (digit_char d)"
  by (simp add: is_digit_def of_char_digit_char)

lemma decimal_digits: "list_all is_digit (decimal n)"
  by (induction n rule: decimal.induct) (subst decimal.simps, simp add: is_digit_digit_char)

lemma decimal_nonempty: "decimal n \<noteq> []"
  by (subst decimal.simps) simp

lemma digits_value_snoc: "digits_value (s @ [c]) = 10 * digits_value s + (of_char c - 48)"
  by (simp add: digits_value_def)

lemma digits_value_decimal: "digits_value (decimal n) = n"
proof (induction n rule: decimal.induct)
  case (1 n)
  show ?case
  proof (cases "n < 10")
    case True
    then show ?thesis
      by (subst decimal.simps) (simp add: digits_value_def of_char_digit_char)
  next
    case False
    with 1 show ?thesis
      by (subst decimal.simps) (simp add: digits_value_snoc of_char_digit_char)
  qed
qed

lemma is_digit_not_sign: "is_digit c \<Longrightarrow> c \<noteq> CHR ''-'' \<and> c \<noteq> CHR ''+''"
  by (auto simp: is_digit_def)

lemma BigInt_decimal: "BigInt (decimal n) = Inr (int n)"
proof -
  obtain c cs where s: "decimal n = c # cs"
    using decimal_nonempty [of n] by (cases "decimal n") auto
  have "list_all is_digit (c # cs)"
    using decimal_digits [of n] s by simp
  moreover from this have "c \<noteq> CHR ''-''" "c \<noteq> CHR ''+''"
    using is_digit_not_sign [of c] by simp_all
  ultimately show ?thesis
    using digits_value_decimal [of n] by (simp add: BigInt_def s)
qed

lemma BigInt_minus_decimal: "BigInt (CHR ''-'' # decimal n) = Inr (- int n)"
  using decimal_digits [of n] decimal_nonempty [of n] digits_value_decimal [of n]
  by (simp add: BigInt_def)

lemma BigInt_toString: "BigInt (toString b) = Inr (BN_int b)"
  by (simp add: toString_def BN_int_def BigInt_decimal BigInt_minus_decimal)

subsection \<open>Little-endian bytes and the buffer writes\<close>

lemma le_bytes_Suc: "le_bytes (Suc n) v = word_of_int v # le_bytes n (v div 256)"
proof -
  have "[0..<Suc n] = 0 # map Suc [0..<n]"
    by (simp add: upt_conv_Cons map_Suc_upt del: upt_Suc)
  then show ?thesis
    by (simp add: le_bytes_def comp_def zdiv_zmult2_eq del: upt_Suc)
qed

lemma le_bytes_0: "le_bytes 0 v = []"
  by (simp add: le_bytes_def)

lemma length_le_bytes: "length (le_bytes n v) = n"
  by (simp add: le_bytes_def)

lemma le_value_le_bytes: "le_value (le_bytes n v) = v mod 256 ^ n"
proof (induction n arbitrary: v)
  case 0
  then show ?case
    by (simp add: le_bytes_0)
next
  case (Suc n)
  have "uint (word_of_int v :: byte) = v mod 256"
    by (simp add: uint_word_of_int)
  then show ?case
    by (simp add: le_bytes_Suc Suc.IH zmod_zmult2_eq)
qed

lemma le_bytes_4: "le_bytes 4 x =
  [word_of_int x, word_of_int (drop_bit 8 x), word_of_int (drop_bit 8 (drop_bit 8 x)),
   word_of_int (drop_bit 8 (drop_bit 8 (drop_bit 8 x)))]"
  by (simp add: eval_nat_numeral le_bytes_Suc le_bytes_0 drop_bit_eq_div)

lemma le_bytes_append: "le_bytes (m + n) v = le_bytes m v @ le_bytes n (v div 256 ^ m)"
proof (induction m arbitrary: v)
  case 0
  then show ?case
    by (simp add: le_bytes_0)
next
  case (Suc m)
  then show ?case
    by (simp add: le_bytes_Suc zdiv_zmult2_eq)
qed

lemma le_bytes_cong:
  assumes "take_bit (8 * n) x = take_bit (8 * n) y"
  shows "le_bytes n x = le_bytes n y"
proof -
  have bits: "bit x j = bit y j" if "j < 8 * n" for j
    using assms that by (metis bit_take_bit_iff)
  have "(word_of_int (x div 256 ^ i) :: byte) = word_of_int (y div 256 ^ i)" if "i < n" for i
  proof -
    have p: "(256::int) ^ i = 2 ^ (8 * i)"
      by (simp add: power_mult)
    have "take_bit 8 (drop_bit (8 * i) x) = take_bit 8 (drop_bit (8 * i) y)"
    proof (rule bit_eqI)
      fix k
      show "bit (take_bit 8 (drop_bit (8 * i) x)) k = bit (take_bit 8 (drop_bit (8 * i) y)) k"
        using bits [of "8 * i + k"] that by (auto simp: bit_take_bit_iff bit_drop_bit_eq)
    qed
    then show ?thesis
      by (simp add: word_of_int_eq_iff p drop_bit_eq_div)
  qed
  then show ?thesis
    by (simp add: le_bytes_def)
qed

lemma update4:
  assumes "offset + 4 \<le> length buf"
  shows "buf[offset := a, offset + 1 := b, offset + 2 := c, offset + 3 := d] =
         take offset buf @ [a, b, c, d] @ drop (offset + 4) buf"
proof (rule nth_equalityI)
  show "length (buf[offset := a, offset + 1 := b, offset + 2 := c, offset + 3 := d]) =
        length (take offset buf @ [a, b, c, d] @ drop (offset + 4) buf)"
    using assms by simp
next
  fix i
  assume "i < length (buf[offset := a, offset + 1 := b, offset + 2 := c, offset + 3 := d])"
  then have i: "i < length buf"
    by simp
  consider "i < offset" | "i = offset" | "i = offset + 1" | "i = offset + 2" | "i = offset + 3"
    | "offset + 4 \<le> i"
    by linarith
  then show "buf[offset := a, offset + 1 := b, offset + 2 := c, offset + 3 := d] ! i =
        (take offset buf @ [a, b, c, d] @ drop (offset + 4) buf) ! i"
  proof cases
    case 6
    then obtain j where j: "i = offset + 4 + j"
      by (metis le_Suc_ex)
    with i assms show ?thesis
      by (simp add: nth_append)
  qed (use i assms in \<open>simp_all add: nth_append\<close>)
qed

lemma store4_eq:
  assumes "offset + 4 \<le> length buf"
  shows "store4 x offset buf = take offset buf @ le_bytes 4 x @ drop (offset + 4) buf"
  unfolding store4_def le_bytes_4 by (rule update4 [OF assms])

lemma low_half: "le_bytes 4 (v AND 0xffffffff) = le_bytes 4 v"
proof (rule le_bytes_cong)
  have m: "(0xffffffff::int) = mask 32"
    by (simp add: mask_eq_exp_minus_1)
  show "take_bit (8 * 4) (v AND 0xffffffff) = take_bit (8 * 4) v"
    unfolding m by (simp add: take_bit_eq_mask and.assoc)
qed

lemma high_half: "le_bytes 4 (drop_bit 32 v AND 0xffffffff) = le_bytes 4 (v div 256 ^ 4)"
proof -
  have "(v div 256 ^ 4) = drop_bit 32 v"
    by (simp add: drop_bit_eq_div)
  then show ?thesis
    using low_half [of "drop_bit 32 v"] by simp
qed

lemma writeBigUInt64LE_eq:
  assumes "0 \<le> v" "v \<le> 0xffffffffffffffff" "offset + 8 \<le> length buf"
  shows "writeBigUInt64LE v offset buf =
         Inr (take offset buf @ le_bytes 8 v @ drop (offset + 8) buf)"
proof -
  have 1: "store4 (v AND 0xffffffff) offset buf =
           take offset buf @ le_bytes 4 v @ drop (offset + 4) buf"
    using assms by (simp add: store4_eq low_half)
  have 2: "store4 (drop_bit 32 v AND 0xffffffff) (offset + 4)
             (take offset buf @ le_bytes 4 v @ drop (offset + 4) buf) =
           take offset buf @ le_bytes 4 v @ le_bytes 4 (v div 256 ^ 4) @ drop (offset + 8) buf"
    using assms by (simp add: store4_eq high_half length_le_bytes min_def add.commute)
  show ?thesis
    using assms le_bytes_append [of 4 4 v]
    by (simp add: writeBigUInt64LE_def Let_def 1 2)
qed

lemma writeBigUInt64LE_range:
  "v < 0 \<or> 0xffffffffffffffff < v \<Longrightarrow> writeBigUInt64LE v offset buf = Inl ERR_OUT_OF_RANGE"
  by (simp add: writeBigUInt64LE_def)

subsection \<open>The two payloads\<close>

lemma writeUInt32LE_selector:
  "writeUInt32LE 2 0 (Buffer_alloc 12) = Inr (le_bytes 4 2 @ replicate 8 0)"
  by (simp add: writeUInt32LE_def Buffer_alloc_def store4_eq)

lemma writeUInt8_selector:
  "writeUInt8 3 0 (Buffer_alloc 9) = Inr (le_bytes 1 3 @ replicate 8 0)"
proof -
  have "(replicate 9 (0::byte))[0 := 3] = 3 # replicate 8 0"
    by (simp add: eval_nat_numeral)
  then show ?thesis
    by (simp add: writeUInt8_def Buffer_alloc_def le_bytes_def)
qed

lemma solTransferData_eq:
  "solTransferData a =
     andThen (toBN a) (\<lambda>b.
       if BN_int b < 0 \<or> 0xffffffffffffffff < BN_int b then Inl ERR_OUT_OF_RANGE
       else Inr (nativeTransferEncoding (BN_int b)))"
proof (cases "toBN a")
  case (Inl e)
  then show ?thesis
    by (simp add: solTransferData_def andThen_def)
next
  case (Inr b)
  show ?thesis
  proof (cases "BN_int b < 0 \<or> 0xffffffffffffffff < BN_int b")
    case True
    then show ?thesis
      using Inr writeBigUInt64LE_range [of "BN_int b"]
      by (simp add: solTransferData_def andThen_def writeUInt32LE_selector BigInt_toString)
  next
    case False
    then have "writeBigUInt64LE (BN_int b) 4 (le_bytes 4 2 @ replicate 8 0) =
        Inr (le_bytes 4 2 @ le_bytes 8 (BN_int b))"
      by (subst writeBigUInt64LE_eq) (simp_all add: length_le_bytes)
    with False Inr show ?thesis
      by (simp add: solTransferData_def andThen_def writeUInt32LE_selector BigInt_toString
          nativeTransferEncoding_def)
  qed
qed

lemma tokenTransferData_eq:
  "tokenTransferData a =
     andThen (toBN a) (\<lambda>b.
       if BN_int b < 0 \<or> 0xffffffffffffffff < BN_int b then Inl ERR_OUT_OF_RANGE
       else Inr (tokenTransferEncoding (BN_int b)))"
proof (cases "toBN a")
  case (Inl e)
  then show ?thesis
    by (simp add: tokenTransferData_def andThen_def)
next
  case (Inr b)
  show ?thesis
  proof (cases "BN_int b < 0 \<or> 0xffffffffffffffff < BN_int b")
    case True
    then show ?thesis
      using Inr writeBigUInt64LE_range [of "BN_int b"]
      by (simp add: tokenTransferData_def andThen_def writeUInt8_selector BigInt_toString)
  next
    case False
    then have "writeBigUInt64LE (BN_int b) 1 (le_bytes 1 3 @ replicate 8 0) =
        Inr (le_bytes 1 3 @ le_bytes 8 (BN_int b))"
      by (subst writeBigUInt64LE_eq) (simp_all add: length_le_bytes)
    with False Inr show ?thesis
      by (simp add: tokenTransferData_def andThen_def writeUInt8_selector BigInt_toString
          tokenTransferEncoding_def)
  qed
qed

lemma toBN_BigNum: "toBN (BigNum b) = Inr b"
  by (simp add: toBN_def)

lemma toBN_integer:
  assumes "\<bar>v\<bar> < 0x20000000000000"
  shows "\<exists>b. toBN (Number (Finite (of_int v))) = Inr b \<and> BN_int b = v"
proof -
  have "\<bar>(of_int v :: rat)\<bar> < 0x20000000000000"
    using assms by (metis of_int_abs of_int_less_numeral_iff)
  from initNumber_int [OF this] show ?thesis
    by (simp add: toBN_def BN_new_Finite js_truncate_of_int)
qed

lemma le_bytes_4_2: "le_bytes 4 2 = [2, 0, 0, 0]"
  by (simp add: le_bytes_4)

lemma le_bytes_1_3: "le_bytes 1 3 = [3]"
  by (simp add: le_bytes_def)

lemma le_value_u64:
  assumes "0 \<le> v" "v \<le> 0xffffffffffffffff"
  shows "le_value (le_bytes 8 v) = v"
  using assms by (simp add: le_value_le_bytes)

section \<open>Facts about the builder and the composer methods\<close>

lemma has_accountsD:
  assumes "has_accounts idl m P"
  obtains idlIx where "idl_instruction idl m = Some idlIx" "P (ix_accounts idlIx)"
  using assms by (auto simp: has_accounts_def split: option.splits)

lemma accountsArray_execute:
  assumes "execute_accounts accs"
  shows "\<exists>cw dw. accountsArray ((''smartAccount'', pda) # (''delegate'', d) # others) accs =
           Inr [\<lparr>pubkey = pda, isSigner = False, isWritable = cw\<rparr>,
                \<lparr>pubkey = d, isSigner = True, isWritable = dw\<rparr>]"
proof -
  from assms obtain x y where accs: "accs = [x, y]"
    and names: "acc_name x = ''smartAccount''" "acc_name y = ''delegate''"
    and signers: "\<not> acc_signer x" "acc_signer y"
    by (auto simp: execute_accounts_def map_eq_Cons_conv)
  show ?thesis
    by (simp add: accs names signers andThen_def)
qed

lemma accountsArray_owner:
  assumes "owner_accounts accs"
  shows "\<exists>ow. accountsArray ((''smartAccount'', pda) # (''owner'', k) # others) accs =
           Inr [\<lparr>pubkey = pda, isSigner = False, isWritable = True\<rparr>,
                \<lparr>pubkey = k, isSigner = True, isWritable = ow\<rparr>]"
proof -
  from assms obtain x y where accs: "accs = [x, y]"
    and names: "acc_name x = ''smartAccount''" "acc_name y = ''owner''"
    and flags: "\<not> acc_signer x" "acc_signer y" "acc_writable x"
    by (auto simp: owner_accounts_def map_eq_Cons_conv)
  show ?thesis
    by (simp add: accs names flags andThen_def)
qed

lemma accountsArray_initialize:
  assumes "initialize_accounts accs"
  shows "\<exists>ow. accountsArray [(''smartAccount'', pda), (''owner'', k), (''systemProgram'', sp)] accs =
           Inr [\<lparr>pubkey = pda, isSigner = False, isWritable = True\<rparr>,
                \<lparr>pubkey = k, isSigner = True, isWritable = ow\<rparr>,
                \<lparr>pubkey = sp, isSigner = False, isWritable = False\<rparr>]"
proof -
  from assms obtain x y z where accs: "accs = [x, y, z]"
    and names: "acc_name x = ''smartAccount''" "acc_name y = ''owner''" "acc_name z = ''systemProgram''"
    and flags: "\<not> acc_signer x" "acc_signer y" "\<not> acc_signer z" "acc_writable x" "\<not> acc_writable z"
    by (auto simp: initialize_accounts_def map_eq_Cons_conv)
  show ?thesis
    by (simp add: accs names flags andThen_def)
qed

lemma methods_transaction_Some:
  assumes "idl_instruction (program_idl prog) m = Some idlIx"
    and "accountsArray accs (ix_accounts idlIx) = Inr ks"
  shows "methods_transaction prog m args accs rest w =
     (Inr \<lparr>feePayer = None, recentBlockhash = None,
           instructions = [\<lparr>keys = ks @ rest, programId = Program_programId prog,
                            data = Call m args\<rparr>]\<rparr>,
      w\<lparr>trace := trace w @ [MethodsTransaction m]\<rparr>)"
  using assms by (simp add: methods_transaction_def andThen_def)

lemma methods_transaction_Inr:
  assumes "methods_transaction prog m args accs rest w = (Inr tx, w')"
  shows "\<exists>ks. tx = \<lparr>feePayer = None, recentBlockhash = None,
           instructions = [\<lparr>keys = ks @ rest, programId = Program_programId prog,
                            data = Call m args\<rparr>]\<rparr>
       \<and> w' = w\<lparr>trace := trace w @ [MethodsTransaction m]\<rparr>"
  using assms
  by (auto simp: methods_transaction_def andThen_def split: option.splits sum.splits)

lemma methods_transaction_world:
  "currentProvider (snd (methods_transaction prog m args accs rest w)) = currentProvider w"
  "ledger (snd (methods_transaction prog m args accs rest w)) = ledger w"
  by (simp_all add: methods_transaction_def split: option.splits)

lemma executeSolTransfer_payload:
  assumes "executeSolTransfer cr sdk smartAccountOwner delegate recipient a w = (Inr tx, w')"
  shows "\<exists>bytes. solTransferData a = Inr bytes \<and>
           map data (instructions tx) = [Call ''execute'' [BytesArg bytes]]"
  using assms
  by (auto simp: executeSolTransfer_def split: sum.splits prod.splits
      dest!: methods_transaction_Inr)

lemma executeSolTransfer_returns:
  assumes "findSmartAccountPDA cr sdk smartAccountOwner = Inr (pda, bump)"
    and "solTransferData a = Inr bytes"
    and "has_accounts (program_idl (program sdk)) ''execute'' execute_accounts"
  shows "\<exists>cw dw. executeSolTransfer cr sdk smartAccountOwner delegate recipient a w =
     (Inr \<lparr>feePayer = None, recentBlockhash = None,
           instructions =
             [\<lparr>keys = [\<lparr>pubkey = pda, isSigner = False, isWritable = cw\<rparr>,
                       \<lparr>pubkey = delegate, isSigner = True, isWritable = dw\<rparr>,
                       \<lparr>pubkey = SystemProgram_programId, isSigner = False, isWritable = False\<rparr>,
                       \<lparr>pubkey = pda, isSigner = False, isWritable = True\<rparr>,
                       \<lparr>pubkey = recipient, isSigner = False, isWritable = True\<rparr>],
               programId = Program_programId (program sdk),
               data = Call ''execute'' [BytesArg bytes]\<rparr>]\<rparr>,
      w\<lparr>trace := trace w @ [MethodsTransaction ''execute'']\<rparr>)"
proof -
  from assms(3) obtain idlIx where ix: "idl_instruction (program_idl (program sdk)) ''execute'' = Some idlIx"
    "execute_accounts (ix_accounts idlIx)"
    by (rule has_accountsD)
  from accountsArray_execute [OF ix(2), of pda delegate "[]"] obtain cw dw where
    "accountsArray [(''smartAccount'', pda), (''delegate'', delegate)] (ix_accounts idlIx) =
       Inr [\<lparr>pubkey = pda, isSigner = False, isWritable = cw\<rparr>,
            \<lparr>pubkey = delegate, isSigner = True, isWritable = dw\<rparr>]"
    by blast
  from methods_transaction_Some [OF ix(1) this] show ?thesis
    by (simp add: executeSolTransfer_def assms(1,2))
qed

lemma executeTokenTransfer_payload:
  assumes "executeTokenTransfer cr sdk smartAccountOwner delegate fromTokenAccount toTokenAccount
             a useToken2022 w = (Inr tx, w')"
  shows "\<exists>bytes. tokenTransferData a = Inr bytes \<and>
           map data (instructions tx) = [Call ''execute'' [BytesArg bytes]]"
  using assms
  by (auto simp: executeTokenTransfer_def Let_def split: sum.splits prod.splits
      dest!: methods_transaction_Inr)

lemma executeTokenTransfer_returns:
  assumes "findSmartAccountPDA cr sdk smartAccountOwner = Inr (pda, bump)"
    and "tokenTransferData a = Inr bytes"
    and "has_accounts (program_idl (program sdk)) ''execute'' execute_accounts"
  shows "\<exists>cw dw. executeTokenTransfer cr sdk smartAccountOwner delegate fromTokenAccount
            toTokenAccount a useToken2022 w =
     (Inr \<lparr>feePayer = None, recentBlockhash = None,
           instructions =
             [\<lparr>keys = [\<lparr>pubkey = pda, isSigner = False, isWritable = cw\<rparr>,
                       \<lparr>pubkey = delegate, isSigner = True, isWritable = dw\<rparr>,
                       \<lparr>pubkey = (if useToken2022 = Some True then TOKEN_2022_PROGRAM_ID
                                   else TOKEN_PROGRAM_ID),
                        isSigner = False, isWritable = False\<rparr>,
                       \<lparr>pubkey = fromTokenAccount, isSigner = False, isWritable = True\<rparr>,
                       \<lparr>pubkey = toTokenAccount, isSigner = False, isWritable = True\<rparr>,
                       \<lparr>pubkey = pda, isSigner = False, isWritable = False\<rparr>],
               programId = Program_programId (program sdk),
               data = Call ''execute'' [BytesArg bytes]\<rparr>]\<rparr>,
      w\<lparr>trace := trace w @ [MethodsTransaction ''execute'']\<rparr>)"
proof -
  from assms(3) obtain idlIx where ix: "idl_instruction (program_idl (program sdk)) ''execute'' = Some idlIx"
    "execute_accounts (ix_accounts idlIx)"
    by (rule has_accountsD)
  from accountsArray_execute [OF ix(2), of pda delegate "[]"] obtain cw dw where
    "accountsArray [(''smartAccount'', pda), (''delegate'', delegate)] (ix_accounts idlIx) =
       Inr [\<lparr>pubkey = pda, isSigner = False, isWritable = cw\<rparr>,
            \<lparr>pubkey = delegate, isSigner = True, isWritable = dw\<rparr>]"
    by blast
  from methods_transaction_Some [OF ix(1) this] show ?thesis
    by (cases useToken2022) (auto simp: executeTokenTransfer_def assms(1,2))
qed

subsection \<open>The address search\<close>

lemma createProgramAddressSync_Inl:
  "createProgramAddressSync cr seeds pid = Inl e \<Longrightarrow> e = MaxSeedLengthExceeded \<or> e = AddressOnCurve"
  by (auto simp: createProgramAddressSync_def Let_def split: if_splits)

lemma findNonce_Inr:
  assumes "findNonce cr seeds pid n = Inr (a, bump)"
  shows "0 < bump \<and> bump \<le> n \<and>
         createProgramAddressSync cr (seeds @ [[of_nat bump]]) pid = Inr a \<and>
         (\<forall>m. bump < m \<and> m \<le> n \<longrightarrow>
            createProgramAddressSync cr (seeds @ [[of_nat m]]) pid = Inl AddressOnCurve)"
  using assms
proof (induction n)
  case 0
  then show ?case
    by simp
next
  case (Suc n)
  show ?case
  proof (cases "createProgramAddressSync cr (seeds @ [[of_nat (Suc n)]]) pid")
    case (Inr a')
    with Suc.prems show ?thesis
      by auto
  next
    case (Inl e)
    with Suc.prems have e: "e \<noteq> MaxSeedLengthExceeded" and rec: "findNonce cr seeds pid n = Inr (a, bump)"
      by (auto split: if_splits)
    from Inl e createProgramAddressSync_Inl have on: "createProgramAddressSync cr (seeds @ [[of_nat (Suc n)]]) pid = Inl AddressOnCurve"
      by blast
    from Suc.IH [OF rec] on show ?thesis
      by (auto simp: le_Suc_eq)
  qed
qed

lemma findSmartAccountPDA_canonical:
  assumes "findSmartAccountPDA cr sdk owner = Inr (a, bump)"
  shows "0 < bump \<and> bump \<le> 255 \<and>
         createProgramAddressSync cr [Buffer_from ''smart'', toBuffer owner, [of_nat bump]]
           (Program_programId (program sdk)) = Inr a \<and>
         (\<forall>m. bump < m \<and> m \<le> 255 \<longrightarrow>
            createProgramAddressSync cr [Buffer_from ''smart'', toBuffer owner, [of_nat m]]
              (Program_programId (program sdk)) = Inl AddressOnCurve)"
  using findNonce_Inr [of cr "[Buffer_from ''smart'', toBuffer owner]" _ 255 a bump] assms
  by (simp add: findSmartAccountPDA_def findProgramAddressSync_def)

subsection \<open>What the composer methods return\<close>

lemma initialize_returns:
  assumes "has_accounts (program_idl (program sdk)) ''initialize'' initialize_accounts"
    and "findSmartAccountPDA cr sdk (case owner of Some k \<Rightarrow> k | None \<Rightarrow> userPublicKey sdk) = Inr (pda, bump)"
  shows "\<exists>ow. initialize cr sdk owner w =
     (Inr \<lparr>feePayer = None, recentBlockhash = None,
           instructions =
             [\<lparr>keys = [\<lparr>pubkey = pda, isSigner = False, isWritable = True\<rparr>,
                       \<lparr>pubkey = (case owner of Some k \<Rightarrow> k | None \<Rightarrow> userPublicKey sdk),
                        isSigner = True, isWritable = ow\<rparr>,
                       \<lparr>pubkey = SystemProgram_programId, isSigner = False, isWritable = False\<rparr>],
               programId = Program_programId (program sdk),
               data = Call ''initialize'' []\<rparr>]\<rparr>,
      w\<lparr>trace := trace w @ [MethodsTransaction ''initialize'']\<rparr>)"
proof -
  from assms(1) obtain idlIx where ix: "idl_instruction (program_idl (program sdk)) ''initialize'' = Some idlIx"
    "initialize_accounts (ix_accounts idlIx)"
    by (rule has_accountsD)
  from accountsArray_initialize [OF ix(2)] obtain ow where
    "accountsArray [(''smartAccount'', pda),
        (''owner'', (case owner of Some k \<Rightarrow> k | None \<Rightarrow> userPublicKey sdk)),
        (''systemProgram'', SystemProgram_programId)] (ix_accounts idlIx) =
       Inr [\<lparr>pubkey = pda, isSigner = False, isWritable = True\<rparr>,
            \<lparr>pubkey = (case owner of Some k \<Rightarrow> k | None \<Rightarrow> userPublicKey sdk),
             isSigner = True, isWritable = ow\<rparr>,
            \<lparr>pubkey = SystemProgram_programId, isSigner = False, isWritable = False\<rparr>]"
    by blast
  from methods_transaction_Some [OF ix(1) this] show ?thesis
    by (simp add: initialize_def Let_def assms(2))
qed

lemma executeSolTransfer_Inr_cases:
  assumes "executeSolTransfer cr sdk smartAccountOwner delegate recipient a w = (Inr tx, w')"
  obtains pda bump bytes where "findSmartAccountPDA cr sdk smartAccountOwner = Inr (pda, bump)"
    "solTransferData a = Inr bytes"
  using assms by (auto simp: executeSolTransfer_def split: sum.splits prod.splits)

lemma executeTokenTransfer_Inr_cases:
  assumes "executeTokenTransfer cr sdk smartAccountOwner delegate fromTokenAccount toTokenAccount
             a useToken2022 w = (Inr tx, w')"
  obtains pda bump bytes where "findSmartAccountPDA cr sdk smartAccountOwner = Inr (pda, bump)"
    "tokenTransferData a = Inr bytes"
  using assms by (auto simp: executeTokenTransfer_def split: sum.splits prod.splits)

lemma owner_transaction:
  assumes "has_accounts (program_idl prog) m owner_accounts"
  shows "\<exists>ow. methods_transaction prog m args [(''smartAccount'', pda), (''owner'', k)] [] w =
     (Inr \<lparr>feePayer = None, recentBlockhash = None,
           instructions =
             [\<lparr>keys = [\<lparr>pubkey = pda, isSigner = False, isWritable = True\<rparr>,
                       \<lparr>pubkey = k, isSigner = True, isWritable = ow\<rparr>],
               programId = Program_programId prog,
               data = Call m args\<rparr>]\<rparr>,
      w\<lparr>trace := trace w @ [MethodsTransaction m]\<rparr>)"
proof -
  from assms obtain idlIx where ix: "idl_instruction (program_idl prog) m = Some idlIx"
    "owner_accounts (ix_accounts idlIx)"
    by (rule has_accountsD)
  from accountsArray_owner [OF ix(2), of pda k "[]"] obtain ow where
    "accountsArray [(''smartAccount'', pda), (''owner'', k)] (ix_accounts idlIx) =
       Inr [\<lparr>pubkey = pda, isSigner = False, isWritable = True\<rparr>,
            \<lparr>pubkey = k, isSigner = True, isWritable = ow\<rparr>]"
    by blast
  from methods_transaction_Some [OF ix(1) this] show ?thesis
    by simp
qed

lemma owner_methods_return:
  assumes "smart_account_schema (program_idl (program sdk))"
    and "findSmartAccountPDA cr sdk (case owner of Some k \<Rightarrow> k | None \<Rightarrow> userPublicKey sdk) = Inr (pda, bump)"
  shows "\<exists>tx w'. addDelegate cr sdk delegate owner w = (Inr tx, w')"
    and "\<exists>tx w'. removeDelegate cr sdk delegate owner w = (Inr tx, w')"
    and "\<exists>tx w'. pause cr sdk owner w = (Inr tx, w')"
    and "\<exists>tx w'. unpause cr sdk owner w = (Inr tx, w')"
proof -
  from assms(1) have h: "has_accounts (program_idl (program sdk)) ''addDelegate'' owner_accounts"
    "has_accounts (program_idl (program sdk)) ''removeDelegate'' owner_accounts"
    "has_accounts (program_idl (program sdk)) ''pause'' owner_accounts"
    "has_accounts (program_idl (program sdk)) ''unpause'' owner_accounts"
    by (simp_all add: smart_account_schema_def)
  show "\<exists>tx w'. addDelegate cr sdk delegate owner w = (Inr tx, w')"
    using owner_transaction [OF h(1)] by (simp add: addDelegate_def Let_def assms(2)) blast
  show "\<exists>tx w'. removeDelegate cr sdk delegate owner w = (Inr tx, w')"
    using owner_transaction [OF h(2)] by (simp add: removeDelegate_def Let_def assms(2)) blast
  show "\<exists>tx w'. pause cr sdk owner w = (Inr tx, w')"
    using owner_transaction [OF h(3)] by (simp add: pause_def Let_def assms(2)) blast
  show "\<exists>tx w'. unpause cr sdk owner w = (Inr tx, w')"
    using owner_transaction [OF h(4)] by (simp add: unpause_def Let_def assms(2)) blast
qed

lemma executeCustomInstruction_returns:
  assumes "smart_account_schema (program_idl (program sdk))"
    and "findSmartAccountPDA cr sdk smartAccountOwner = Inr (pda, bump)"
  shows "\<exists>tx w'. executeCustomInstruction cr sdk smartAccountOwner delegate targetProgram
                    instructionData remainingAccounts w = (Inr tx, w')"
proof -
  from assms(1) have "has_accounts (program_idl (program sdk)) ''execute'' execute_accounts"
    by (simp add: smart_account_schema_def)
  then obtain idlIx where ix: "idl_instruction (program_idl (program sdk)) ''execute'' = Some idlIx"
    "execute_accounts (ix_accounts idlIx)"
    by (rule has_accountsD)
  from accountsArray_execute [OF ix(2), of pda delegate "[]"] obtain cw dw where
    "accountsArray [(''smartAccount'', pda), (''delegate'', delegate)] (ix_accounts idlIx) =
       Inr [\<lparr>pubkey = pda, isSigner = False, isWritable = cw\<rparr>,
            \<lparr>pubkey = delegate, isSigner = True, isWritable = dw\<rparr>]"
    by blast
  from methods_transaction_Some [OF ix(1) this] show ?thesis
    by (simp add: executeCustomInstruction_def assms(2))
qed

lemma leaves_unset_Inr:
  assumes "leaves_unset r" and "r = (Inr tx, w')"
  shows "feePayer tx = None \<and> recentBlockhash tx = None"
  using assms by (simp add: leaves_unset_def)

lemma methods_transaction_unset:
  "leaves_unset (methods_transaction prog m args accs rest w)"
  by (simp add: leaves_unset_def methods_transaction_def andThen_def split: option.splits sum.splits)

lemma leaves_unset_Inl: "leaves_unset (Inl e, w)"
  by (simp add: leaves_unset_def)

lemma methods_transaction_shared:
  "same_shared_state w (snd (methods_transaction prog m args accs rest w))"
  by (simp add: same_shared_state_def methods_transaction_def split: option.splits)

lemma same_shared_state_refl: "same_shared_state w w"
  by (simp add: same_shared_state_def)

subsection \<open>Amounts and their payloads\<close>

lemma toBN_stands_for:
  assumes "stands_for a v" and "is_number a \<longrightarrow> \<bar>v\<bar> < 0x20000000000000"
  shows "\<exists>b. toBN a = Inr b \<and> BN_int b = v"
proof (cases a)
  case (Number n)
  with assms toBN_integer [of v] show ?thesis
    by (simp add: stands_for_def is_number_def)
next
  case (BigNum b)
  with assms show ?thesis
    by (simp add: stands_for_def toBN_def)
qed

lemma toBN_stands_for_Inr:
  assumes "stands_for a v" and "toBN a = Inr b"
  shows "BN_int b = v"
proof (cases a)
  case (Number n)
  with assms have n: "n = Finite (of_int v)" and b: "initNumber (Finite (of_int v)) = Inr b"
    by (simp_all add: stands_for_def toBN_def BN_new_Finite)
  have "\<bar>(of_int v :: rat)\<bar> < 0x20000000000000"
  proof (rule ccontr)
    assume "\<not> \<bar>(of_int v :: rat)\<bar> < 0x20000000000000"
    then have "initNumber (Finite (of_int v)) = Inl AssertionError"
      by (intro initNumber_Finite_Inl) simp
    with b show False
      by simp
  qed
  from initNumber_int [OF this] b show ?thesis
    by (simp add: js_truncate_of_int)
next
  case (BigNum b')
  with assms show ?thesis
    by (simp add: stands_for_def toBN_def)
qed

lemma solTransferData_stands_for:
  assumes "stands_for a v" and "solTransferData a = Inr bytes"
  shows "0 \<le> v \<and> v \<le> 0xffffffffffffffff \<and> bytes = nativeTransferEncoding v"
proof -
  from assms(2) obtain b where b: "toBN a = Inr b"
    by (cases "toBN a") (simp_all add: solTransferData_eq andThen_def)
  from toBN_stands_for_Inr [OF assms(1) b] assms(2) b show ?thesis
    by (auto simp: solTransferData_eq andThen_def split: if_splits)
qed

lemma solTransferData_accepts:
  assumes "0 \<le> v" "v \<le> 0xffffffffffffffff"
    and "stands_for a v" and "is_number a \<longrightarrow> v < 0x20000000000000"
  shows "solTransferData a = Inr (nativeTransferEncoding v)"
proof -
  from toBN_stands_for [OF assms(3)] assms(1,4) obtain b where "toBN a = Inr b" "BN_int b = v"
    by auto
  with assms(1,2) show ?thesis
    by (simp add: solTransferData_eq andThen_def)
qed

lemma nativeTransferEncoding_layout:
  "length (nativeTransferEncoding v) = 12"
  "take 4 (nativeTransferEncoding v) = [2, 0, 0, 0]"
  "drop 4 (nativeTransferEncoding v) = le_bytes 8 v"
  by (simp_all add: nativeTransferEncoding_def length_le_bytes le_bytes_4_2)

lemma nativeTransferEncoding_example:
  "nativeTransferEncoding 1000000000 = [0x02, 0, 0, 0, 0x00, 0xCA, 0x9A, 0x3B, 0, 0, 0, 0]"
  by code_simp

lemma tokenTransferData_stands_for:
  assumes "stands_for a v" and "tokenTransferData a = Inr bytes"
  shows "0 \<le> v \<and> v \<le> 0xffffffffffffffff \<and> bytes = tokenTransferEncoding v"
proof -
  from assms(2) obtain b where b: "toBN a = Inr b"
    by (cases "toBN a") (simp_all add: tokenTransferData_eq andThen_def)
  from toBN_stands_for_Inr [OF assms(1) b] assms(2) b show ?thesis
    by (auto simp: tokenTransferData_eq andThen_def split: if_splits)
qed

lemma tokenTransferData_accepts:
  assumes "0 \<le> v" "v \<le> 0xffffffffffffffff"
    and "stands_for a v" and "is_number a \<longrightarrow> v < 0x20000000000000"
  shows "tokenTransferData a = Inr (tokenTransferEncoding v)"
proof -
  from toBN_stands_for [OF assms(3)] assms(1,4) obtain b where "toBN a = Inr b" "BN_int b = v"
    by auto
  with assms(1,2) show ?thesis
    by (simp add: tokenTransferData_eq andThen_def)
qed

lemma tokenTransferEncoding_layout:
  "length (tokenTransferEncoding v) = 9"
  "take 1 (tokenTransferEncoding v) = [3]"
  "drop 1 (tokenTransferEncoding v) = le_bytes 8 v"
  by (simp_all add: tokenTransferEncoding_def length_le_bytes le_bytes_Suc le_bytes_0)

lemma tokenTransferEncoding_example:
  "tokenTransferEncoding 5000000 = [0x03, 0x40, 0x4B, 0x4C, 0, 0, 0, 0, 0]"
  by code_simp

lemma js_truncate_le_minus1: "q \<le> - 1 \<Longrightarrow> js_truncate q < 0"
proof -
  assume "q \<le> - 1"
  then have "1 \<le> - q" by simp
  then have "1 \<le> \<lfloor>- q\<rfloor>" by (simp add: le_floor_iff)
  moreover have "q < 0" using \<open>q \<le> - 1\<close> by simp
  ultimately show ?thesis by (simp add: js_truncate_def)
qed

lemma toBN_out_of_range:
  assumes "out_of_range a"
  shows "toBN a = Inl AssertionError \<or>
         (\<exists>b. toBN a = Inr b \<and> (BN_int b < 0 \<or> 0xffffffffffffffff < BN_int b))"
proof (cases a)
  case (BigNum b)
  with assms show ?thesis
    by (simp add: out_of_range_def toBN_def)
next
  case (Number n)
  show ?thesis
  proof (cases n)
    case (Finite q)
    with Number assms have q: "q \<le> - 1 \<or> 0xffffffffffffffff < q"
      by (simp add: out_of_range_def)
    show ?thesis
    proof (cases "\<bar>q\<bar> < 0x20000000000000")
      case True
      with q have q1: "q \<le> - 1"
        by auto
      from initNumber_int [OF True] obtain b where "initNumber (Finite q) = Inr b"
        "BN_int b = js_truncate q"
        by blast
      with js_truncate_le_minus1 [OF q1] Number Finite show ?thesis
        by (simp add: toBN_def BN_new_Finite)
    next
      case False
      then have "initNumber (Finite q) = Inl AssertionError"
        by (intro initNumber_Finite_Inl) simp
      with Number Finite show ?thesis
        by (simp add: toBN_def BN_new_Finite)
    qed
  qed (use assms Number in \<open>simp_all add: toBN_def BN_new_not_finite out_of_range_def\<close>)
qed

lemma solTransferData_rejects:
  assumes "out_of_range a"
  shows "solTransferData a = Inl AssertionError \<or> solTransferData a = Inl ERR_OUT_OF_RANGE"
  using toBN_out_of_range [OF assms]
  by (auto simp: solTransferData_eq andThen_def)

lemma tokenTransferData_rejects:
  assumes "out_of_range a"
  shows "tokenTransferData a = Inl AssertionError \<or> tokenTransferData a = Inl ERR_OUT_OF_RANGE"
  using toBN_out_of_range [OF assms]
  by (auto simp: tokenTransferData_eq andThen_def)

lemma executeSolTransfer_Inl:
  assumes "solTransferData a = Inl e"
  shows "\<exists>e'. executeSolTransfer cr sdk smartAccountOwner delegate recipient a w = (Inl e', w)"
  using assms by (auto simp: executeSolTransfer_def split: sum.splits prod.splits)

lemma executeTokenTransfer_Inl:
  assumes "tokenTransferData a = Inl e"
  shows "\<exists>e'. executeTokenTransfer cr sdk smartAccountOwner delegate fromTokenAccount
            toTokenAccount a useToken2022 w = (Inl e', w)"
  using assms by (auto simp: executeTokenTransfer_def split: sum.splits prod.splits)

lemma le_bytes_8_0: "le_bytes 8 0 = replicate 8 0"
  by (simp add: le_bytes_def map_replicate_const)

subsection \<open>The concrete inputs\<close>

lemma example_pda: "findSmartAccountPDA toy_crypto example_sdk bob = Inr (bob_pda, 254)"
  by code_simp

lemma example_schema: "smart_account_schema (program_idl (program example_sdk))"
  by code_simp

lemma example_program:
  "program_idl (program example_sdk) = example_idl"
  "Program_programId (program example_sdk) = address example_idl"
  "userPublicKey example_sdk = alice"
  by (simp_all add: example_sdk_def SmartAccountSDK_new_def Let_def Program_programId_def)

lemma example_execute:
  "methods_transaction (program example_sdk) ''execute'' args
     [(''smartAccount'', pda), (''delegate'', d)] rest fresh_world =
   (Inr \<lparr>feePayer = None, recentBlockhash = None,
         instructions =
           [\<lparr>keys = [\<lparr>pubkey = pda, isSigner = False, isWritable = False\<rparr>,
                     \<lparr>pubkey = d, isSigner = True, isWritable = False\<rparr>] @ rest,
             programId = address example_idl,
             data = Call ''execute'' args\<rparr>]\<rparr>,
    \<lparr>currentProvider = None, ledger = [], trace = [MethodsTransaction ''execute'']\<rparr>)"
  by (simp add: methods_transaction_def example_program idl_instruction_def example_idl_def
      andThen_def fresh_world_def)

lemma half: "\<lfloor>1 / 2 :: rat\<rfloor> = 0"
  by (simp add: floor_eq_iff)

lemma minus_half_payload:
  "solTransferData (Number (Finite (- 1 / 2))) = Inr [2, 0, 0, 0, 0, 0, 0, 0, 0, 0, 0, 0]"
proof -
  have "toBN (Number (Finite (- 1 / 2))) = Inr \<lparr>negative = 1, words = [0]\<rparr>"
    by (simp add: toBN_def BN_new_def initNumber_def js_bitand_limb js_truncate_def half)
  moreover have "BN_int \<lparr>negative = 1, words = [0]\<rparr> = 0"
    by (simp add: BN_int_def)
  moreover have "nativeTransferEncoding 0 = [2, 0, 0, 0, 0, 0, 0, 0, 0, 0, 0, 0]"
    by code_simp
  ultimately show ?thesis
    by (simp add: solTransferData_eq andThen_def)
qed

text \<open>\<^verbatim>\<open>NaN\<close> is falsy, so \<^verbatim>\<open>new BN(NaN)\<close> is \<^verbatim>\<open>new BN(0)\<close>: the amount 0 is encoded.\<close>

lemma NaN_payload:
  "solTransferData (Number NaN) = Inr (nativeTransferEncoding 0)"
  "tokenTransferData (Number NaN) = Inr (tokenTransferEncoding 0)"
proof -
  obtain b where "initNumber (Finite 0) = Inr b" "BN_int b = js_truncate 0"
    using initNumber_int [of 0] by auto
  then have "toBN (Number NaN) = Inr b" "BN_int b = 0"
    by (simp_all add: toBN_def BN_new_not_finite js_truncate_def)
  then show "solTransferData (Number NaN) = Inr (nativeTransferEncoding 0)"
    "tokenTransferData (Number NaN) = Inr (tokenTransferEncoding 0)"
    by (simp_all add: solTransferData_eq tokenTransferData_eq andThen_def)
qed

lemma two53_payloads:
  "solTransferData (Number (Finite 9007199254740992)) = Inl AssertionError"
  "solTransferData (BigNum \<lparr>negative = 0, words = [0, 0, 2]\<rparr>) =
     Inr [2, 0, 0, 0, 0, 0, 0, 0, 0, 0, 0x20, 0]"
proof -
  show "solTransferData (Number (Finite 9007199254740992)) = Inl AssertionError"
    by (simp add: solTransferData_eq andThen_def toBN_def BN_new_Finite initNumber_Finite_Inl)
  have "BN_int \<lparr>negative = 0, words = [0, 0, 2]\<rparr> = 9007199254740992"
    by (simp add: BN_int_def)
  moreover have "nativeTransferEncoding 9007199254740992 = [2, 0, 0, 0, 0, 0, 0, 0, 0, 0, 0x20, 0]"
    by code_simp
  ultimately show "solTransferData (BigNum \<lparr>negative = 0, words = [0, 0, 2]\<rparr>) =
     Inr [2, 0, 0, 0, 0, 0, 0, 0, 0, 0, 0x20, 0]"
    by (simp add: solTransferData_eq andThen_def toBN_def)
qed

section \<open>The payload of a native transfer\<close>

text \<open>
  Claim C1. For every amount \<open>v\<close> from 0 to \<open>2^64 - 1\<close>: a transaction that
  \<^verbatim>\<open>executeSolTransfer\<close> returns for an amount standing for \<open>v\<close> carries, as the argument
  of \<^verbatim>\<open>execute\<close>, the native-transfer encoding of \<open>v\<close>; the method does return one for
  such an amount (a \<^verbatim>\<open>BN\<close>, or a number below \<open>2^53\<close>) whenever the address derivation
  succeeds and the IDL follows the schema. The encoding has 12 bytes, the first four are the
  little-endian selector 2, the last eight are \<open>v\<close> little-endian (and read back as \<open>v\<close>).
  For 1 000 000 000 the bytes are 02 00 00 00 00 CA 9A 3B 00 00 00 00.
\<close>

theorem native_transfer_encoding:
  assumes "0 \<le> v" and "v \<le> 0xffffffffffffffff"
  shows "(\<forall>cr sdk smartAccountOwner delegate recipient a w tx w'.
            stands_for a v \<and>
            executeSolTransfer cr sdk smartAccountOwner delegate recipient a w = (Inr tx, w') \<longrightarrow>
            map data (instructions tx) = [Call ''execute'' [BytesArg (nativeTransferEncoding v)]])
       \<and> (\<forall>cr sdk smartAccountOwner delegate recipient a w pda bump.
            stands_for a v \<and> (is_number a \<longrightarrow> v < 0x20000000000000) \<and>
            findSmartAccountPDA cr sdk smartAccountOwner = Inr (pda, bump) \<and>
            smart_account_schema (program_idl (program sdk)) \<longrightarrow>
            (\<exists>tx w'. executeSolTransfer cr sdk smartAccountOwner delegate recipient a w = (Inr tx, w')))
       \<and> length (nativeTransferEncoding v) = 12
       \<and> take 4 (nativeTransferEncoding v) = [2, 0, 0, 0]
       \<and> drop 4 (nativeTransferEncoding v) = le_bytes 8 v
       \<and> le_value (le_bytes 8 v) = v
       \<and> nativeTransferEncoding 1000000000 = [0x02, 0, 0, 0, 0x00, 0xCA, 0x9A, 0x3B, 0, 0, 0, 0]"
proof (intro conjI allI impI)
  fix cr sdk smartAccountOwner delegate recipient a w tx w'
  assume h: "stands_for a v \<and>
    executeSolTransfer cr sdk smartAccountOwner delegate recipient a w = (Inr tx, w')"
  then have e: "executeSolTransfer cr sdk smartAccountOwner delegate recipient a w = (Inr tx, w')"
    by simp
  from executeSolTransfer_payload [OF e] obtain bytes where "solTransferData a = Inr bytes"
    "map data (instructions tx) = [Call ''execute'' [BytesArg bytes]]"
    by auto
  with h solTransferData_stands_for [of a v bytes]
  show "map data (instructions tx) = [Call ''execute'' [BytesArg (nativeTransferEncoding v)]]"
    by simp
next
  fix cr sdk smartAccountOwner delegate recipient a w pda bump
  assume h: "stands_for a v \<and> (is_number a \<longrightarrow> v < 0x20000000000000) \<and>
    findSmartAccountPDA cr sdk smartAccountOwner = Inr (pda, bump) \<and>
    smart_account_schema (program_idl (program sdk))"
  then have "solTransferData a = Inr (nativeTransferEncoding v)"
    using assms solTransferData_accepts by blast
  moreover from h have "has_accounts (program_idl (program sdk)) ''execute'' execute_accounts"
    by (simp add: smart_account_schema_def)
  ultimately show "\<exists>tx w'. executeSolTransfer cr sdk smartAccountOwner delegate recipient a w = (Inr tx, w')"
    using h executeSolTransfer_returns [of cr sdk smartAccountOwner pda bump a _ delegate recipient w]
    by blast
next
  show "le_value (le_bytes 8 v) = v"
    using assms by (rule le_value_u64)
qed (rule nativeTransferEncoding_layout nativeTransferEncoding_example)+

text \<open>The theorem at the amount 1 000 000 000, given as a number, on the concrete inputs.\<close>

theorem native_transfer_encoding_witness:
  "(0::int) \<le> 1000000000 \<and> (1000000000::int) \<le> 0xffffffffffffffff
   \<and> stands_for (Number (Finite 1000000000)) 1000000000
   \<and> findSmartAccountPDA toy_crypto example_sdk bob = Inr (bob_pda, 254)
   \<and> smart_account_schema (program_idl (program example_sdk))
   \<and> (\<exists>tx w'. executeSolTransfer toy_crypto example_sdk bob carol dave
                  (Number (Finite 1000000000)) fresh_world = (Inr tx, w')
        \<and> map data (instructions tx) =
            [Call ''execute'' [BytesArg [0x02, 0, 0, 0, 0x00, 0xCA, 0x9A, 0x3B, 0, 0, 0, 0]]])"
proof -
  have r: "(0::int) \<le> 1000000000" "(1000000000::int) \<le> 0xffffffffffffffff"
    by simp_all
  have s: "stands_for (Number (Finite 1000000000)) 1000000000"
    by (simp add: stands_for_def)
  have n: "is_number (Number (Finite 1000000000)) \<longrightarrow> (1000000000::int) < 0x20000000000000"
    by simp
  note t = native_transfer_encoding [OF r]
  note returns = t [THEN conjunct2, THEN conjunct1, rule_format]
  note carries = t [THEN conjunct1, rule_format]
  have "\<exists>tx w'. executeSolTransfer toy_crypto example_sdk bob carol dave
          (Number (Finite 1000000000)) fresh_world = (Inr tx, w')"
    by (rule returns [where pda = bob_pda and bump = 254])
      (simp add: s n example_pda example_schema)
  then obtain tx w' where
    e: "executeSolTransfer toy_crypto example_sdk bob carol dave
          (Number (Finite 1000000000)) fresh_world = (Inr tx, w')"
    by auto
  have "map data (instructions tx) =
      [Call ''execute'' [BytesArg (nativeTransferEncoding 1000000000)]]"
    by (rule carries [OF conjI [OF s e]])
  with t have "map data (instructions tx) =
      [Call ''execute'' [BytesArg [0x02, 0, 0, 0, 0x00, 0xCA, 0x9A, 0x3B, 0, 0, 0, 0]]]"
    by simp
  with e r s example_pda example_schema show ?thesis
    by simp
qed

section \<open>The payload of a token transfer\<close>

text \<open>
  Claim C2. For every amount \<open>v\<close> from 0 to \<open>2^64 - 1\<close>: a transaction that
  \<^verbatim>\<open>executeTokenTransfer\<close> returns for an amount standing for \<open>v\<close> carries, as the
  argument of \<^verbatim>\<open>execute\<close>, the token-transfer encoding of \<open>v\<close>; the method does return
  one for such an amount (a \<^verbatim>\<open>BN\<close>, or a number below \<open>2^53\<close>) whenever the address
  derivation succeeds and the IDL follows the schema. The encoding has 9 bytes, the first is
  the selector 3, the last eight are \<open>v\<close> little-endian (and read back as \<open>v\<close>).
  For 5 000 000 the bytes are 03 40 4B 4C 00 00 00 00 00.
\<close>

theorem token_transfer_encoding:
  assumes "0 \<le> v" and "v \<le> 0xffffffffffffffff"
  shows "(\<forall>cr sdk smartAccountOwner delegate fromTokenAccount toTokenAccount a useToken2022 w tx w'.
            stands_for a v \<and>
            executeTokenTransfer cr sdk smartAccountOwner delegate fromTokenAccount toTokenAccount a useToken2022 w = (Inr tx, w') \<longrightarrow>
            map data (instructions tx) = [Call ''execute'' [BytesArg (tokenTransferEncoding v)]])
       \<and> (\<forall>cr sdk smartAccountOwner delegate fromTokenAccount toTokenAccount a useToken2022 w pda bump.
            stands_for a v \<and> (is_number a \<longrightarrow> v < 0x20000000000000) \<and>
            findSmartAccountPDA cr sdk smartAccountOwner = Inr (pda, bump) \<and>
            smart_account_schema (program_idl (program sdk)) \<longrightarrow>
            (\<exists>tx w'. executeTokenTransfer cr sdk smartAccountOwner delegate fromTokenAccount toTokenAccount a useToken2022 w = (Inr tx, w')))
       \<and> length (tokenTransferEncoding v) = 9
       \<and> take 1 (tokenTransferEncoding v) = [3]
       \<and> drop 1 (tokenTransferEncoding v) = le_bytes 8 v
       \<and> le_value (le_bytes 8 v) = v
       \<and> tokenTransferEncoding 5000000 = [0x03, 0x40, 0x4B, 0x4C, 0, 0, 0, 0, 0]"
proof (intro conjI allI impI)
  fix cr sdk smartAccountOwner delegate fromTokenAccount toTokenAccount a useToken2022 w tx w'
  assume h: "stands_for a v \<and>
    executeTokenTransfer cr sdk smartAccountOwner delegate fromTokenAccount toTokenAccount a useToken2022 w = (Inr tx, w')"
  then have e: "executeTokenTransfer cr sdk smartAccountOwner delegate fromTokenAccount toTokenAccount a useToken2022 w = (Inr tx, w')"
    by simp
  from executeTokenTransfer_payload [OF e] obtain bytes where "tokenTransferData a = Inr bytes"
    "map data (instructions tx) = [Call ''execute'' [BytesArg bytes]]"
    by auto
  with h tokenTransferData_stands_for [of a v bytes]
  show "map data (instructions tx) = [Call ''execute'' [BytesArg (tokenTransferEncoding v)]]"
    by simp
next
  fix cr sdk smartAccountOwner delegate fromTokenAccount toTokenAccount a useToken2022 w pda bump
  assume h: "stands_for a v \<and> (is_number a \<longrightarrow> v < 0x20000000000000) \<and>
    findSmartAccountPDA cr sdk smartAccountOwner = Inr (pda, bump) \<and>
    smart_account_schema (program_idl (program sdk))"
  then have "tokenTransferData a = Inr (tokenTransferEncoding v)"
    using assms tokenTransferData_accepts by blast
  moreover from h have "has_accounts (program_idl (program sdk)) ''execute'' execute_accounts"
    by (simp add: smart_account_schema_def)
  ultimately show "\<exists>tx w'. executeTokenTransfer cr sdk smartAccountOwner delegate fromTokenAccount toTokenAccount a useToken2022 w = (Inr tx, w')"
    using h executeTokenTransfer_returns [of cr sdk smartAccountOwner pda bump a _ delegate fromTokenAccount toTokenAccount useToken2022 w]
    by blast
next
  show "le_value (le_bytes 8 v) = v"
    using assms by (rule le_value_u64)
qed (rule tokenTransferEncoding_layout tokenTransferEncoding_example)+

text \<open>The theorem at the amount 5 000 000, given as a number, on the concrete inputs.\<close>

theorem token_transfer_encoding_witness:
  "(0::int) \<le> 5000000 \<and> (5000000::int) \<le> 0xffffffffffffffff
   \<and> stands_for (Number (Finite 5000000)) 5000000
   \<and> findSmartAccountPDA toy_crypto example_sdk bob = Inr (bob_pda, 254)
   \<and> smart_account_schema (program_idl (program example_sdk))
   \<and> (\<exists>tx w'. executeTokenTransfer toy_crypto example_sdk bob carol dave alice
                  (Number (Finite 5000000)) None fresh_world = (Inr tx, w')
        \<and> map data (instructions tx) =
            [Call ''execute'' [BytesArg [0x03, 0x40, 0x4B, 0x4C, 0, 0, 0, 0, 0]]])"
proof -
  have r: "(0::int) \<le> 5000000" "(5000000::int) \<le> 0xffffffffffffffff"
    by simp_all
  have s: "stands_for (Number (Finite 5000000)) 5000000"
    by (simp add: stands_for_def)
  have n: "is_number (Number (Finite 5000000)) \<longrightarrow> (5000000::int) < 0x20000000000000"
    by simp
  note t = token_transfer_encoding [OF r]
  note returns = t [THEN conjunct2, THEN conjunct1, rule_format]
  note carries = t [THEN conjunct1, rule_format]
  have "\<exists>tx w'. executeTokenTransfer toy_crypto example_sdk bob carol dave alice
          (Number (Finite 5000000)) None fresh_world = (Inr tx, w')"
    by (rule returns [where pda = bob_pda and bump = 254])
      (simp add: s n example_pda example_schema)
  then obtain tx w' where
    e: "executeTokenTransfer toy_crypto example_sdk bob carol dave alice
          (Number (Finite 5000000)) None fresh_world = (Inr tx, w')"
    by auto
  have "map data (instructions tx) =
      [Call ''execute'' [BytesArg (tokenTransferEncoding 5000000)]]"
    by (rule carries [OF conjI [OF s e]])
  with t have "map data (instructions tx) =
      [Call ''execute'' [BytesArg [0x03, 0x40, 0x4B, 0x4C, 0, 0, 0, 0, 0]]]"
    by simp
  with e r s example_pda example_schema show ?thesis
    by simp
qed

section \<open>Amounts the transfers accept and reject\<close>

text \<open>
  Claim C3, as amended. An amount that stands for 0 is accepted by both transfer methods and
  its eight amount bytes are zero. An amount that is out of range (a \<^verbatim>\<open>BN\<close> outside
  \<open>0 .. 2^64 - 1\<close>; a number that is at most \<open>-1\<close>, greater than \<open>2^64 - 1\<close> or
  infinite) makes both methods fail with an error: the payload is not
  built (\<^verbatim>\<open>new BN\<close> fails its assertion or \<^verbatim>\<open>writeBigUInt64LE\<close> throws before it
  stores a byte), and the world is returned as it was, so the builder, the only step that
  may reach the cluster, has not run.
\<close>

theorem transfer_amount_validation:
  "(stands_for a 0 \<longrightarrow>
      solTransferData a = Inr (nativeTransferEncoding 0) \<and>
      tokenTransferData a = Inr (tokenTransferEncoding 0) \<and>
      drop 4 (nativeTransferEncoding 0) = replicate 8 0 \<and>
      drop 1 (tokenTransferEncoding 0) = replicate 8 0)
   \<and> (stands_for a 0 \<and> findSmartAccountPDA cr sdk smartAccountOwner = Inr (pda, bump) \<and>
        smart_account_schema (program_idl (program sdk)) \<longrightarrow>
        (\<exists>tx w'. executeSolTransfer cr sdk smartAccountOwner delegate recipient a w = (Inr tx, w') \<and>
           map data (instructions tx) = [Call ''execute'' [BytesArg (nativeTransferEncoding 0)]]) \<and>
        (\<exists>tx w'. executeTokenTransfer cr sdk smartAccountOwner delegate fromTokenAccount
                   toTokenAccount a useToken2022 w = (Inr tx, w') \<and>
           map data (instructions tx) = [Call ''execute'' [BytesArg (tokenTransferEncoding 0)]]))
   \<and> (out_of_range a \<longrightarrow>
        (solTransferData a = Inl AssertionError \<or> solTransferData a = Inl ERR_OUT_OF_RANGE) \<and>
        (tokenTransferData a = Inl AssertionError \<or> tokenTransferData a = Inl ERR_OUT_OF_RANGE) \<and>
        (\<exists>e. executeSolTransfer cr sdk smartAccountOwner delegate recipient a w = (Inl e, w)) \<and>
        (\<exists>e. executeTokenTransfer cr sdk smartAccountOwner delegate fromTokenAccount
                toTokenAccount a useToken2022 w = (Inl e, w)))"
proof (intro conjI impI)
  assume z: "stands_for a 0"
  show "solTransferData a = Inr (nativeTransferEncoding 0)"
    by (rule solTransferData_accepts) (use z in simp_all)
  show "tokenTransferData a = Inr (tokenTransferEncoding 0)"
    by (rule tokenTransferData_accepts) (use z in simp_all)
  show "drop 4 (nativeTransferEncoding 0) = replicate 8 0"
    by (simp only: nativeTransferEncoding_layout le_bytes_8_0)
  show "drop 1 (tokenTransferEncoding 0) = replicate 8 0"
    by (simp only: tokenTransferEncoding_layout le_bytes_8_0)
next
  assume h: "stands_for a 0 \<and> findSmartAccountPDA cr sdk smartAccountOwner = Inr (pda, bump) \<and>
        smart_account_schema (program_idl (program sdk))"
  then have x: "has_accounts (program_idl (program sdk)) ''execute'' execute_accounts"
    by (simp add: smart_account_schema_def)
  have s: "solTransferData a = Inr (nativeTransferEncoding 0)"
    by (rule solTransferData_accepts) (use h in simp_all)
  have t: "tokenTransferData a = Inr (tokenTransferEncoding 0)"
    by (rule tokenTransferData_accepts) (use h in simp_all)
  from h have p: "findSmartAccountPDA cr sdk smartAccountOwner = Inr (pda, bump)"
    by simp
  show "\<exists>tx w'. executeSolTransfer cr sdk smartAccountOwner delegate recipient a w = (Inr tx, w') \<and>
           map data (instructions tx) = [Call ''execute'' [BytesArg (nativeTransferEncoding 0)]]"
    using executeSolTransfer_returns [OF p s x, where delegate = delegate and recipient = recipient
        and w = w]
    by auto
  show "\<exists>tx w'. executeTokenTransfer cr sdk smartAccountOwner delegate fromTokenAccount
                   toTokenAccount a useToken2022 w = (Inr tx, w') \<and>
           map data (instructions tx) = [Call ''execute'' [BytesArg (tokenTransferEncoding 0)]]"
    using executeTokenTransfer_returns
      [OF p t x, of delegate fromTokenAccount toTokenAccount useToken2022 w]
    by auto
next
  assume r: "out_of_range a"
  show s: "solTransferData a = Inl AssertionError \<or> solTransferData a = Inl ERR_OUT_OF_RANGE"
    by (rule solTransferData_rejects [OF r])
  show t: "tokenTransferData a = Inl AssertionError \<or> tokenTransferData a = Inl ERR_OUT_OF_RANGE"
    by (rule tokenTransferData_rejects [OF r])
  show "\<exists>e. executeSolTransfer cr sdk smartAccountOwner delegate recipient a w = (Inl e, w)"
    using s executeSolTransfer_Inl by blast
  show "\<exists>e. executeTokenTransfer cr sdk smartAccountOwner delegate fromTokenAccount
                toTokenAccount a useToken2022 w = (Inl e, w)"
    using t executeTokenTransfer_Inl by blast
qed

text \<open>
  The theorem at the number 0, at the \<^verbatim>\<open>BN\<close> with limbs \<open>[0, 0, 4096]\<close> (which
  denotes \<open>2^64\<close>) and at the number \<open>-1\<close>.
\<close>

theorem transfer_amount_validation_witness:
  "stands_for (Number (Finite 0)) 0
   \<and> solTransferData (Number (Finite 0)) = Inr [2, 0, 0, 0, 0, 0, 0, 0, 0, 0, 0, 0]
   \<and> tokenTransferData (Number (Finite 0)) = Inr [3, 0, 0, 0, 0, 0, 0, 0, 0]
   \<and> out_of_range (BigNum \<lparr>negative = 0, words = [0, 0, 4096]\<rparr>)
   \<and> (\<exists>e. executeSolTransfer toy_crypto example_sdk bob carol dave
              (BigNum \<lparr>negative = 0, words = [0, 0, 4096]\<rparr>) fresh_world = (Inl e, fresh_world))
   \<and> out_of_range (Number (Finite (- 1)))
   \<and> (\<exists>e. executeTokenTransfer toy_crypto example_sdk bob carol dave alice
              (Number (Finite (- 1))) None fresh_world = (Inl e, fresh_world))"
proof -
  have z: "stands_for (Number (Finite 0)) 0"
    by (simp add: stands_for_def)
  have big: "out_of_range (BigNum \<lparr>negative = 0, words = [0, 0, 4096]\<rparr>)"
    by (simp add: out_of_range_def BN_int_def)
  have neg: "out_of_range (Number (Finite (- 1)))"
    by (simp add: out_of_range_def)
  have n0: "nativeTransferEncoding 0 = [2, 0, 0, 0, 0, 0, 0, 0, 0, 0, 0, 0]"
    by code_simp
  have t0: "tokenTransferEncoding 0 = [3, 0, 0, 0, 0, 0, 0, 0, 0]"
    by code_simp
  note zero = transfer_amount_validation
    [where a = "Number (Finite 0)", THEN conjunct1, rule_format, OF z]
  note rejected = transfer_amount_validation
    [THEN conjunct2, THEN conjunct2, rule_format]
  from zero have "solTransferData (Number (Finite 0)) = Inr [2, 0, 0, 0, 0, 0, 0, 0, 0, 0, 0, 0]"
    "tokenTransferData (Number (Finite 0)) = Inr [3, 0, 0, 0, 0, 0, 0, 0, 0]"
    by (simp_all only: n0 t0)
  moreover from rejected [OF big]
  have "\<exists>e. executeSolTransfer toy_crypto example_sdk bob carol dave
              (BigNum \<lparr>negative = 0, words = [0, 0, 4096]\<rparr>) fresh_world = (Inl e, fresh_world)"
    by (rule conjunct2 [THEN conjunct2, THEN conjunct1])
  moreover from rejected [OF neg]
  have "\<exists>e. executeTokenTransfer toy_crypto example_sdk bob carol dave alice
              (Number (Finite (- 1))) None fresh_world = (Inl e, fresh_world)"
    by (rule conjunct2 [THEN conjunct2, THEN conjunct2])
  ultimately show ?thesis
    using z big neg by (intro conjI)
qed

text \<open>
  The claim as first stated fails: the number \<open>-1/2\<close> is negative, yet
  \<^verbatim>\<open>executeSolTransfer\<close> accepts it and encodes the amount 0. \<^verbatim>\<open>new BN(-0.5)\<close> has
  the sign flag set and the single limb \<open>-0.5 & 0x3ffffff = 0\<close>; its \<^verbatim>\<open>toString()\<close> is
  \<^verbatim>\<open>"-0"\<close>, and \<^verbatim>\<open>BigInt("-0")\<close> is 0.
\<close>

theorem negative_fraction_accepted:
  "(- 1 / 2 :: rat) < 0
   \<and> executeSolTransfer toy_crypto example_sdk bob carol dave (Number (Finite (- 1 / 2))) fresh_world =
     (Inr \<lparr>feePayer = None, recentBlockhash = None,
           instructions =
             [\<lparr>keys = [\<lparr>pubkey = bob_pda, isSigner = False, isWritable = False\<rparr>,
                       \<lparr>pubkey = carol, isSigner = True, isWritable = False\<rparr>,
                       \<lparr>pubkey = SystemProgram_programId, isSigner = False, isWritable = False\<rparr>,
                       \<lparr>pubkey = bob_pda, isSigner = False, isWritable = True\<rparr>,
                       \<lparr>pubkey = dave, isSigner = False, isWritable = True\<rparr>],
               programId = address example_idl,
               data = Call ''execute'' [BytesArg [2, 0, 0, 0, 0, 0, 0, 0, 0, 0, 0, 0]]\<rparr>]\<rparr>,
      \<lparr>currentProvider = None, ledger = [], trace = [MethodsTransaction ''execute'']\<rparr>)"
  unfolding executeSolTransfer_def example_pda minus_half_payload
  by (simp add: example_execute)

section \<open>The smart-account address\<close>

text \<open>
  Claim C4. \<^verbatim>\<open>findSmartAccountPDA\<close> depends on the owner and the program identifier
  only: two instances for the same program give the same result for the same owner, whatever
  their connection, their user and the world they were constructed in (the function neither
  reads nor changes the world). When it returns an address and a bump, the bump is the
  largest nonce from 255 down to 1 whose hash is off the curve, and the address is that hash.
\<close>

theorem smart_account_address_deterministic:
  "(Program_programId (program sdk) = Program_programId (program sdk') \<longrightarrow>
      findSmartAccountPDA cr sdk owner = findSmartAccountPDA cr sdk' owner)
   \<and> findSmartAccountPDA cr (fst (SmartAccountSDK_new idl conn user w)) owner =
       findSmartAccountPDA cr (fst (SmartAccountSDK_new idl conn' user' w')) owner
   \<and> (findSmartAccountPDA cr sdk owner = Inr (a, bump) \<longrightarrow>
        0 < bump \<and> bump \<le> 255 \<and>
        createProgramAddressSync cr [Buffer_from ''smart'', toBuffer owner, [of_nat bump]]
          (Program_programId (program sdk)) = Inr a \<and>
        (\<forall>m. bump < m \<and> m \<le> 255 \<longrightarrow>
           createProgramAddressSync cr [Buffer_from ''smart'', toBuffer owner, [of_nat m]]
             (Program_programId (program sdk)) = Inl AddressOnCurve))"
proof (intro conjI impI)
  assume "Program_programId (program sdk) = Program_programId (program sdk')"
  then show "findSmartAccountPDA cr sdk owner = findSmartAccountPDA cr sdk' owner"
    by (simp add: findSmartAccountPDA_def)
next
  show "findSmartAccountPDA cr (fst (SmartAccountSDK_new idl conn user w)) owner =
       findSmartAccountPDA cr (fst (SmartAccountSDK_new idl conn' user' w')) owner"
    by (simp add: findSmartAccountPDA_def SmartAccountSDK_new_def Let_def Program_programId_def)
next
  assume r: "findSmartAccountPDA cr sdk owner = Inr (a, bump)"
  note c = findSmartAccountPDA_canonical [OF r]
  from c show "0 < bump" "bump \<le> 255"
    "createProgramAddressSync cr [Buffer_from ''smart'', toBuffer owner, [of_nat bump]]
          (Program_programId (program sdk)) = Inr a"
    "\<forall>m. bump < m \<and> m \<le> 255 \<longrightarrow>
           createProgramAddressSync cr [Buffer_from ''smart'', toBuffer owner, [of_nat m]]
             (Program_programId (program sdk)) = Inl AddressOnCurve"
    by blast+
qed

text \<open>The theorem at two instances for the example program, and at the owner \<open>bob\<close>.\<close>

theorem smart_account_address_deterministic_witness:
  "Program_programId (program example_sdk) = Program_programId (program other_sdk)
   \<and> findSmartAccountPDA toy_crypto example_sdk bob = findSmartAccountPDA toy_crypto other_sdk bob
   \<and> findSmartAccountPDA toy_crypto other_sdk bob = Inr (bob_pda, 254)
   \<and> createProgramAddressSync toy_crypto [Buffer_from ''smart'', toBuffer bob, [of_nat 254]]
        (Program_programId (program example_sdk)) = Inr bob_pda"
proof -
  have p: "Program_programId (program example_sdk) = Program_programId (program other_sdk)"
    by (simp add: example_sdk_def other_sdk_def SmartAccountSDK_new_def Let_def
        Program_programId_def)
  note same = smart_account_address_deterministic [THEN conjunct1, rule_format]
  note canonical = smart_account_address_deterministic
    [THEN conjunct2, THEN conjunct2, rule_format]
  have e: "findSmartAccountPDA toy_crypto example_sdk bob = findSmartAccountPDA toy_crypto other_sdk bob"
    by (rule same [OF p])
  with example_pda have o: "findSmartAccountPDA toy_crypto other_sdk bob = Inr (bob_pda, 254)"
    by simp
  from canonical [OF example_pda]
  have "createProgramAddressSync toy_crypto [Buffer_from ''smart'', toBuffer bob, [of_nat 254]]
        (Program_programId (program example_sdk)) = Inr bob_pda"
    by blast
  with p e o show ?thesis
    by (intro conjI)
qed

section \<open>The account lists\<close>

text \<open>
  Claim C5. When the IDL follows the schema and the address derivation for the owner
  succeeds, \<^verbatim>\<open>initialize(owner)\<close> returns a transaction with one instruction whose
  accounts are, in this order, the derived smart-account address (writable, no signer), the
  owner (signer) and the system program (read-only, no signer). Without an argument the
  owner is the user of the instance.
\<close>

theorem initialize_account_list:
  assumes "smart_account_schema (program_idl (program sdk))"
  shows "(findSmartAccountPDA cr sdk owner = Inr (pda, bump) \<longrightarrow>
          (\<exists>tx w' ix ow.
             initialize cr sdk (Some owner) w = (Inr tx, w') \<and>
             instructions tx = [ix] \<and>
             keys ix = [\<lparr>pubkey = pda, isSigner = False, isWritable = True\<rparr>,
                        \<lparr>pubkey = owner, isSigner = True, isWritable = ow\<rparr>,
                        \<lparr>pubkey = SystemProgram_programId, isSigner = False, isWritable = False\<rparr>]))
       \<and> (findSmartAccountPDA cr sdk (userPublicKey sdk) = Inr (pda, bump) \<longrightarrow>
          (\<exists>tx w' ix ow.
             initialize cr sdk None w = (Inr tx, w') \<and>
             instructions tx = [ix] \<and>
             keys ix = [\<lparr>pubkey = pda, isSigner = False, isWritable = True\<rparr>,
                        \<lparr>pubkey = userPublicKey sdk, isSigner = True, isWritable = ow\<rparr>,
                        \<lparr>pubkey = SystemProgram_programId, isSigner = False, isWritable = False\<rparr>]))"
proof (intro conjI impI)
  from assms have i: "has_accounts (program_idl (program sdk)) ''initialize'' initialize_accounts"
    by (simp add: smart_account_schema_def)
  {
    assume "findSmartAccountPDA cr sdk owner = Inr (pda, bump)"
    with initialize_returns [OF i, of cr "Some owner" pda bump w]
    show "\<exists>tx w' ix ow.
             initialize cr sdk (Some owner) w = (Inr tx, w') \<and>
             instructions tx = [ix] \<and>
             keys ix = [\<lparr>pubkey = pda, isSigner = False, isWritable = True\<rparr>,
                        \<lparr>pubkey = owner, isSigner = True, isWritable = ow\<rparr>,
                        \<lparr>pubkey = SystemProgram_programId, isSigner = False, isWritable = False\<rparr>]"
      by auto
  }
  {
    assume "findSmartAccountPDA cr sdk (userPublicKey sdk) = Inr (pda, bump)"
    with initialize_returns [OF i, of cr None pda bump w]
    show "\<exists>tx w' ix ow.
             initialize cr sdk None w = (Inr tx, w') \<and>
             instructions tx = [ix] \<and>
             keys ix = [\<lparr>pubkey = pda, isSigner = False, isWritable = True\<rparr>,
                        \<lparr>pubkey = userPublicKey sdk, isSigner = True, isWritable = ow\<rparr>,
                        \<lparr>pubkey = SystemProgram_programId, isSigner = False, isWritable = False\<rparr>]"
      by auto
  }
qed

text \<open>The theorem at the example instance and the owner \<open>bob\<close>.\<close>

theorem initialize_account_list_witness:
  "smart_account_schema (program_idl (program example_sdk))
   \<and> findSmartAccountPDA toy_crypto example_sdk bob = Inr (bob_pda, 254)
   \<and> (\<exists>tx w' ix ow.
           initialize toy_crypto example_sdk (Some bob) fresh_world = (Inr tx, w') \<and>
           instructions tx = [ix] \<and>
           keys ix = [\<lparr>pubkey = bob_pda, isSigner = False, isWritable = True\<rparr>,
                      \<lparr>pubkey = bob, isSigner = True, isWritable = ow\<rparr>,
                      \<lparr>pubkey = SystemProgram_programId, isSigner = False, isWritable = False\<rparr>])"
  using initialize_account_list [OF example_schema, THEN conjunct1, rule_format, OF example_pda,
      of fresh_world]
    example_schema example_pda
  by (intro conjI)

text \<open>
  Claim C6. When the IDL follows the schema, a transaction that \<^verbatim>\<open>executeSolTransfer\<close>
  returns has one instruction; its first two accounts are the smart-account address (no
  signer) and the delegate (signer), and the accounts after this pair are exactly the system
  program (read-only), the smart-account address (writable) and the recipient (writable), no
  signer among them. For an in-range amount the method returns a transaction whenever the
  address derivation succeeds.
\<close>

theorem native_transfer_account_list:
  assumes "smart_account_schema (program_idl (program sdk))"
  shows "(executeSolTransfer cr sdk smartAccountOwner delegate recipient a w = (Inr tx, w') \<longrightarrow>
          (\<exists>pda bump ix cw dw.
             findSmartAccountPDA cr sdk smartAccountOwner = Inr (pda, bump) \<and>
             instructions tx = [ix] \<and>
             take 2 (keys ix) = [\<lparr>pubkey = pda, isSigner = False, isWritable = cw\<rparr>,
                                 \<lparr>pubkey = delegate, isSigner = True, isWritable = dw\<rparr>] \<and>
             drop 2 (keys ix) =
               [\<lparr>pubkey = SystemProgram_programId, isSigner = False, isWritable = False\<rparr>,
                \<lparr>pubkey = pda, isSigner = False, isWritable = True\<rparr>,
                \<lparr>pubkey = recipient, isSigner = False, isWritable = True\<rparr>]))
       \<and> (0 \<le> v \<and> v \<le> 0xffffffffffffffff \<and> stands_for a v \<and>
          (is_number a \<longrightarrow> v < 0x20000000000000) \<and>
          findSmartAccountPDA cr sdk smartAccountOwner = Inr (pda', bump') \<longrightarrow>
          (\<exists>tx' w''. executeSolTransfer cr sdk smartAccountOwner delegate recipient a w = (Inr tx', w'')))"
proof (intro conjI impI)
  from assms have x: "has_accounts (program_idl (program sdk)) ''execute'' execute_accounts"
    by (simp add: smart_account_schema_def)
  {
    assume e: "executeSolTransfer cr sdk smartAccountOwner delegate recipient a w = (Inr tx, w')"
    then obtain pda bump bytes where p: "findSmartAccountPDA cr sdk smartAccountOwner = Inr (pda, bump)"
      and s: "solTransferData a = Inr bytes"
      by (rule executeSolTransfer_Inr_cases)
    from executeSolTransfer_returns [OF p s x, of delegate recipient w] e p
    show "\<exists>pda bump ix cw dw.
             findSmartAccountPDA cr sdk smartAccountOwner = Inr (pda, bump) \<and>
             instructions tx = [ix] \<and>
             take 2 (keys ix) = [\<lparr>pubkey = pda, isSigner = False, isWritable = cw\<rparr>,
                                 \<lparr>pubkey = delegate, isSigner = True, isWritable = dw\<rparr>] \<and>
             drop 2 (keys ix) =
               [\<lparr>pubkey = SystemProgram_programId, isSigner = False, isWritable = False\<rparr>,
                \<lparr>pubkey = pda, isSigner = False, isWritable = True\<rparr>,
                \<lparr>pubkey = recipient, isSigner = False, isWritable = True\<rparr>]"
      by auto
  }
  {
    assume h: "0 \<le> v \<and> v \<le> 0xffffffffffffffff \<and> stands_for a v \<and>
          (is_number a \<longrightarrow> v < 0x20000000000000) \<and>
          findSmartAccountPDA cr sdk smartAccountOwner = Inr (pda', bump')"
    then have s: "solTransferData a = Inr (nativeTransferEncoding v)"
      by (intro solTransferData_accepts) simp_all
    from h have p: "findSmartAccountPDA cr sdk smartAccountOwner = Inr (pda', bump')"
      by simp
    from executeSolTransfer_returns [OF p s x]
    show "\<exists>tx' w''. executeSolTransfer cr sdk smartAccountOwner delegate recipient a w = (Inr tx', w'')"
      by blast
  }
qed

text \<open>The theorem at the example instance, for 1 000 000 000 lamports from \<open>bob\<close>'s account.\<close>

theorem native_transfer_account_list_witness:
  "smart_account_schema (program_idl (program example_sdk))
   \<and> stands_for (Number (Finite 1000000000)) 1000000000
   \<and> findSmartAccountPDA toy_crypto example_sdk bob = Inr (bob_pda, 254)
   \<and> (\<exists>tx w' ix cw dw.
         executeSolTransfer toy_crypto example_sdk bob carol dave
           (Number (Finite 1000000000)) fresh_world = (Inr tx, w') \<and>
         instructions tx = [ix] \<and>
         take 2 (keys ix) = [\<lparr>pubkey = bob_pda, isSigner = False, isWritable = cw\<rparr>,
                             \<lparr>pubkey = carol, isSigner = True, isWritable = dw\<rparr>] \<and>
         drop 2 (keys ix) =
           [\<lparr>pubkey = SystemProgram_programId, isSigner = False, isWritable = False\<rparr>,
            \<lparr>pubkey = bob_pda, isSigner = False, isWritable = True\<rparr>,
            \<lparr>pubkey = dave, isSigner = False, isWritable = True\<rparr>])"
proof -
  have s: "stands_for (Number (Finite 1000000000)) 1000000000"
    by (simp add: stands_for_def)
  note t = native_transfer_account_list [OF example_schema]
  note shape = t [THEN conjunct1, rule_format]
  note returns = t [THEN conjunct2, rule_format]
  have "\<exists>tx w'. executeSolTransfer toy_crypto example_sdk bob carol dave
          (Number (Finite 1000000000)) fresh_world = (Inr tx, w')"
    by (rule returns [where v = 1000000000 and pda' = bob_pda and bump' = 254])
      (simp add: s example_pda)
  then obtain tx w' where e: "executeSolTransfer toy_crypto example_sdk bob carol dave
          (Number (Finite 1000000000)) fresh_world = (Inr tx, w')"
    by auto
  from shape [OF e] example_pda e have "\<exists>tx w' ix cw dw.
         executeSolTransfer toy_crypto example_sdk bob carol dave
           (Number (Finite 1000000000)) fresh_world = (Inr tx, w') \<and>
         instructions tx = [ix] \<and>
         take 2 (keys ix) = [\<lparr>pubkey = bob_pda, isSigner = False, isWritable = cw\<rparr>,
                             \<lparr>pubkey = carol, isSigner = True, isWritable = dw\<rparr>] \<and>
         drop 2 (keys ix) =
           [\<lparr>pubkey = SystemProgram_programId, isSigner = False, isWritable = False\<rparr>,
            \<lparr>pubkey = bob_pda, isSigner = False, isWritable = True\<rparr>,
            \<lparr>pubkey = dave, isSigner = False, isWritable = True\<rparr>]"
    by auto
  with s example_schema example_pda show ?thesis
    by (intro conjI)
qed

text \<open>
  Claim C7. When the IDL follows the schema, a transaction that \<^verbatim>\<open>executeTokenTransfer\<close>
  returns has one instruction; its first two accounts are the smart-account address (no
  signer) and the delegate (signer), and the accounts after this pair are exactly the token
  program (read-only), the source account (writable), the destination account (writable)
  and the smart-account address (read-only), no signer among them. The token program is
  Token-2022 when the flag is \<^verbatim>\<open>true\<close> and the standard token program when it is
  \<^verbatim>\<open>false\<close> or left out; the two differ. For an in-range amount the method returns a
  transaction whenever the address derivation succeeds.
\<close>

theorem token_transfer_account_list:
  assumes "smart_account_schema (program_idl (program sdk))"
  shows "(executeTokenTransfer cr sdk smartAccountOwner delegate fromTokenAccount toTokenAccount
            a useToken2022 w = (Inr tx, w') \<longrightarrow>
          (\<exists>pda bump ix cw dw.
             findSmartAccountPDA cr sdk smartAccountOwner = Inr (pda, bump) \<and>
             instructions tx = [ix] \<and>
             take 2 (keys ix) = [\<lparr>pubkey = pda, isSigner = False, isWritable = cw\<rparr>,
                                 \<lparr>pubkey = delegate, isSigner = True, isWritable = dw\<rparr>] \<and>
             drop 2 (keys ix) =
               [\<lparr>pubkey = (if useToken2022 = Some True then TOKEN_2022_PROGRAM_ID
                           else TOKEN_PROGRAM_ID),
                 isSigner = False, isWritable = False\<rparr>,
                \<lparr>pubkey = fromTokenAccount, isSigner = False, isWritable = True\<rparr>,
                \<lparr>pubkey = toTokenAccount, isSigner = False, isWritable = True\<rparr>,
                \<lparr>pubkey = pda, isSigner = False, isWritable = False\<rparr>]))
       \<and> (0 \<le> v \<and> v \<le> 0xffffffffffffffff \<and> stands_for a v \<and>
          (is_number a \<longrightarrow> v < 0x20000000000000) \<and>
          findSmartAccountPDA cr sdk smartAccountOwner = Inr (pda', bump') \<longrightarrow>
          (\<exists>tx' w''. executeTokenTransfer cr sdk smartAccountOwner delegate fromTokenAccount
                        toTokenAccount a useToken2022 w = (Inr tx', w'')))
       \<and> TOKEN_2022_PROGRAM_ID \<noteq> TOKEN_PROGRAM_ID"
proof (intro conjI impI)
  from assms have x: "has_accounts (program_idl (program sdk)) ''execute'' execute_accounts"
    by (simp add: smart_account_schema_def)
  {
    assume e: "executeTokenTransfer cr sdk smartAccountOwner delegate fromTokenAccount toTokenAccount
            a useToken2022 w = (Inr tx, w')"
    then obtain pda bump bytes where p: "findSmartAccountPDA cr sdk smartAccountOwner = Inr (pda, bump)"
      and s: "tokenTransferData a = Inr bytes"
      by (rule executeTokenTransfer_Inr_cases)
    from executeTokenTransfer_returns [OF p s x, of delegate fromTokenAccount toTokenAccount useToken2022 w] e p
    show "\<exists>pda bump ix cw dw.
             findSmartAccountPDA cr sdk smartAccountOwner = Inr (pda, bump) \<and>
             instructions tx = [ix] \<and>
             take 2 (keys ix) = [\<lparr>pubkey = pda, isSigner = False, isWritable = cw\<rparr>,
                                 \<lparr>pubkey = delegate, isSigner = True, isWritable = dw\<rparr>] \<and>
             drop 2 (keys ix) =
               [\<lparr>pubkey = (if useToken2022 = Some True then TOKEN_2022_PROGRAM_ID
                           else TOKEN_PROGRAM_ID),
                 isSigner = False, isWritable = False\<rparr>,
                \<lparr>pubkey = fromTokenAccount, isSigner = False, isWritable = True\<rparr>,
                \<lparr>pubkey = toTokenAccount, isSigner = False, isWritable = True\<rparr>,
                \<lparr>pubkey = pda, isSigner = False, isWritable = False\<rparr>]"
      by auto
  }
  {
    assume h: "0 \<le> v \<and> v \<le> 0xffffffffffffffff \<and> stands_for a v \<and>
          (is_number a \<longrightarrow> v < 0x20000000000000) \<and>
          findSmartAccountPDA cr sdk smartAccountOwner = Inr (pda', bump')"
    then have s: "tokenTransferData a = Inr (tokenTransferEncoding v)"
      by (intro tokenTransferData_accepts) simp_all
    from h have p: "findSmartAccountPDA cr sdk smartAccountOwner = Inr (pda', bump')"
      by simp
    from executeTokenTransfer_returns [OF p s x]
    show "\<exists>tx' w''. executeTokenTransfer cr sdk smartAccountOwner delegate fromTokenAccount
                        toTokenAccount a useToken2022 w = (Inr tx', w'')"
      by blast
  }
  show "TOKEN_2022_PROGRAM_ID \<noteq> TOKEN_PROGRAM_ID"
    by (simp add: TOKEN_2022_PROGRAM_ID_def TOKEN_PROGRAM_ID_def)
qed

text \<open>The theorem at the example instance, for 5 000 000 tokens under Token-2022.\<close>

theorem token_transfer_account_list_witness:
  "smart_account_schema (program_idl (program example_sdk))
   \<and> stands_for (Number (Finite 5000000)) 5000000
   \<and> findSmartAccountPDA toy_crypto example_sdk bob = Inr (bob_pda, 254)
   \<and> (\<exists>tx w' ix cw dw.
         executeTokenTransfer toy_crypto example_sdk bob carol dave alice
           (Number (Finite 5000000)) (Some True) fresh_world = (Inr tx, w') \<and>
         instructions tx = [ix] \<and>
         take 2 (keys ix) = [\<lparr>pubkey = bob_pda, isSigner = False, isWritable = cw\<rparr>,
                             \<lparr>pubkey = carol, isSigner = True, isWritable = dw\<rparr>] \<and>
         drop 2 (keys ix) =
           [\<lparr>pubkey = TOKEN_2022_PROGRAM_ID, isSigner = False, isWritable = False\<rparr>,
            \<lparr>pubkey = dave, isSigner = False, isWritable = True\<rparr>,
            \<lparr>pubkey = alice, isSigner = False, isWritable = True\<rparr>,
            \<lparr>pubkey = bob_pda, isSigner = False, isWritable = False\<rparr>])"
proof -
  have s: "stands_for (Number (Finite 5000000)) 5000000"
    by (simp add: stands_for_def)
  note t = token_transfer_account_list [OF example_schema]
  note shape = t [THEN conjunct1, rule_format]
  note returns = t [THEN conjunct2, THEN conjunct1, rule_format]
  have "\<exists>tx w'. executeTokenTransfer toy_crypto example_sdk bob carol dave alice
          (Number (Finite 5000000)) (Some True) fresh_world = (Inr tx, w')"
    by (rule returns [where v = 5000000 and pda' = bob_pda and bump' = 254])
      (simp add: s example_pda)
  then obtain tx w' where e: "executeTokenTransfer toy_crypto example_sdk bob carol dave alice
          (Number (Finite 5000000)) (Some True) fresh_world = (Inr tx, w')"
    by auto
  from shape [OF e] example_pda e have "\<exists>tx w' ix cw dw.
         executeTokenTransfer toy_crypto example_sdk bob carol dave alice
           (Number (Finite 5000000)) (Some True) fresh_world = (Inr tx, w') \<and>
         instructions tx = [ix] \<and>
         take 2 (keys ix) = [\<lparr>pubkey = bob_pda, isSigner = False, isWritable = cw\<rparr>,
                             \<lparr>pubkey = carol, isSigner = True, isWritable = dw\<rparr>] \<and>
         drop 2 (keys ix) =
           [\<lparr>pubkey = TOKEN_2022_PROGRAM_ID, isSigner = False, isWritable = False\<rparr>,
            \<lparr>pubkey = dave, isSigner = False, isWritable = True\<rparr>,
            \<lparr>pubkey = alice, isSigner = False, isWritable = True\<rparr>,
            \<lparr>pubkey = bob_pda, isSigner = False, isWritable = False\<rparr>]"
    by auto
  with s example_schema example_pda show ?thesis
    by (intro conjI)
qed

section \<open>What a composer method leaves to the caller\<close>

text \<open>
  Claim C8. Whatever the arguments, each of the eight composer methods ends in an error or
  returns a transaction whose fee payer and recent blockhash are both unset.
\<close>

theorem composed_transactions_unsigned:
  "leaves_unset (initialize cr sdk owner w)
   \<and> leaves_unset (addDelegate cr sdk delegate owner w)
   \<and> leaves_unset (removeDelegate cr sdk delegate owner w)
   \<and> leaves_unset (pause cr sdk owner w)
   \<and> leaves_unset (unpause cr sdk owner w)
   \<and> leaves_unset (executeSolTransfer cr sdk smartAccountOwner delegate recipient a w)
   \<and> leaves_unset (executeTokenTransfer cr sdk smartAccountOwner delegate fromTokenAccount
                      toTokenAccount a useToken2022 w)
   \<and> leaves_unset (executeCustomInstruction cr sdk smartAccountOwner delegate targetProgram
                      instructionData remainingAccounts w)"
proof (intro conjI)
  show "leaves_unset (initialize cr sdk owner w)"
    by (simp add: initialize_def Let_def methods_transaction_unset leaves_unset_Inl
        split: sum.splits prod.splits)
  show "leaves_unset (addDelegate cr sdk delegate owner w)"
    by (simp add: addDelegate_def Let_def methods_transaction_unset leaves_unset_Inl
        split: sum.splits prod.splits)
  show "leaves_unset (removeDelegate cr sdk delegate owner w)"
    by (simp add: removeDelegate_def Let_def methods_transaction_unset leaves_unset_Inl
        split: sum.splits prod.splits)
  show "leaves_unset (pause cr sdk owner w)"
    by (simp add: pause_def Let_def methods_transaction_unset leaves_unset_Inl
        split: sum.splits prod.splits)
  show "leaves_unset (unpause cr sdk owner w)"
    by (simp add: unpause_def Let_def methods_transaction_unset leaves_unset_Inl
        split: sum.splits prod.splits)
  show "leaves_unset (executeSolTransfer cr sdk smartAccountOwner delegate recipient a w)"
    by (simp add: executeSolTransfer_def Let_def methods_transaction_unset leaves_unset_Inl
        split: sum.splits prod.splits)
  show "leaves_unset (executeTokenTransfer cr sdk smartAccountOwner delegate fromTokenAccount
                      toTokenAccount a useToken2022 w)"
    by (simp add: executeTokenTransfer_def Let_def methods_transaction_unset leaves_unset_Inl
        split: sum.splits prod.splits)
  show "leaves_unset (executeCustomInstruction cr sdk smartAccountOwner delegate targetProgram
                      instructionData remainingAccounts w)"
    by (simp add: executeCustomInstruction_def Let_def methods_transaction_unset leaves_unset_Inl
        split: sum.splits prod.splits)
qed

text \<open>
  The theorem at the example instance: each of the eight methods returns a transaction there,
  and neither field of it is set.
\<close>

theorem composed_transactions_unsigned_witness:
  "(\<exists>tx w'. initialize toy_crypto example_sdk (Some bob) fresh_world = (Inr tx, w')
       \<and> feePayer tx = None \<and> recentBlockhash tx = None)
   \<and> (\<exists>tx w'. addDelegate toy_crypto example_sdk carol (Some bob) fresh_world = (Inr tx, w')
       \<and> feePayer tx = None \<and> recentBlockhash tx = None)
   \<and> (\<exists>tx w'. removeDelegate toy_crypto example_sdk carol (Some bob) fresh_world = (Inr tx, w')
       \<and> feePayer tx = None \<and> recentBlockhash tx = None)
   \<and> (\<exists>tx w'. pause toy_crypto example_sdk (Some bob) fresh_world = (Inr tx, w')
       \<and> feePayer tx = None \<and> recentBlockhash tx = None)
   \<and> (\<exists>tx w'. unpause toy_crypto example_sdk (Some bob) fresh_world = (Inr tx, w')
       \<and> feePayer tx = None \<and> recentBlockhash tx = None)
   \<and> (\<exists>tx w'. executeSolTransfer toy_crypto example_sdk bob carol dave
                  (Number (Finite 1000000000)) fresh_world = (Inr tx, w')
       \<and> feePayer tx = None \<and> recentBlockhash tx = None)
   \<and> (\<exists>tx w'. executeTokenTransfer toy_crypto example_sdk bob carol dave alice
                  (Number (Finite 5000000)) None fresh_world = (Inr tx, w')
       \<and> feePayer tx = None \<and> recentBlockhash tx = None)
   \<and> (\<exists>tx w'. executeCustomInstruction toy_crypto example_sdk bob carol dave [1, 2, 3]
                  [\<lparr>pubkey = alice, isSigner = False, isWritable = True\<rparr>] fresh_world = (Inr tx, w')
       \<and> feePayer tx = None \<and> recentBlockhash tx = None)"
proof -
  note u = composed_transactions_unsigned [where cr = toy_crypto and sdk = example_sdk
      and owner = "Some bob" and delegate = carol and w = fresh_world and smartAccountOwner = bob
      and recipient = dave and fromTokenAccount = dave and toTokenAccount = alice
      and targetProgram = dave and instructionData = "[1, 2, 3]"
      and remainingAccounts = "[\<lparr>pubkey = alice, isSigner = False, isWritable = True\<rparr>]"]
  have p: "findSmartAccountPDA toy_crypto example_sdk
             (case Some bob of Some k \<Rightarrow> k | None \<Rightarrow> userPublicKey example_sdk) = Inr (bob_pda, 254)"
    by (simp add: example_pda)
  have x: "has_accounts (program_idl (program example_sdk)) ''execute'' execute_accounts"
    and i: "has_accounts (program_idl (program example_sdk)) ''initialize'' initialize_accounts"
    using example_schema by (simp_all add: smart_account_schema_def)
  have s: "solTransferData (Number (Finite 1000000000)) = Inr (nativeTransferEncoding 1000000000)"
    by (rule solTransferData_accepts) (simp_all add: stands_for_def)
  have t: "tokenTransferData (Number (Finite 5000000)) = Inr (tokenTransferEncoding 5000000)"
    by (rule tokenTransferData_accepts) (simp_all add: stands_for_def)
  have 1: "\<exists>tx w'. initialize toy_crypto example_sdk (Some bob) fresh_world = (Inr tx, w')"
    using initialize_returns [OF i p] by blast
  note 2 = owner_methods_return [OF example_schema p]
  have 6: "\<exists>tx w'. executeSolTransfer toy_crypto example_sdk bob carol dave
                  (Number (Finite 1000000000)) fresh_world = (Inr tx, w')"
    using executeSolTransfer_returns [OF example_pda s x] by blast
  have 7: "\<exists>tx w'. executeTokenTransfer toy_crypto example_sdk bob carol dave alice
                  (Number (Finite 5000000)) None fresh_world = (Inr tx, w')"
    using executeTokenTransfer_returns [OF example_pda t x] by blast
  note 8 = executeCustomInstruction_returns [OF example_schema example_pda]
  show ?thesis
  proof (intro conjI)
    show "\<exists>tx w'. initialize toy_crypto example_sdk (Some bob) fresh_world = (Inr tx, w')
       \<and> feePayer tx = None \<and> recentBlockhash tx = None"
      using 1 u [THEN conjunct1] leaves_unset_Inr by blast
    show "\<exists>tx w'. addDelegate toy_crypto example_sdk carol (Some bob) fresh_world = (Inr tx, w')
       \<and> feePayer tx = None \<and> recentBlockhash tx = None"
      using 2(1) u [THEN conjunct2, THEN conjunct1] leaves_unset_Inr by blast
    show "\<exists>tx w'. removeDelegate toy_crypto example_sdk carol (Some bob) fresh_world = (Inr tx, w')
       \<and> feePayer tx = None \<and> recentBlockhash tx = None"
      using 2(2) u [THEN conjunct2, THEN conjunct2, THEN conjunct1] leaves_unset_Inr by blast
    show "\<exists>tx w'. pause toy_crypto example_sdk (Some bob) fresh_world = (Inr tx, w')
       \<and> feePayer tx = None \<and> recentBlockhash tx = None"
      using 2(3) u [THEN conjunct2, THEN conjunct2, THEN conjunct2, THEN conjunct1]
        leaves_unset_Inr by blast
    show "\<exists>tx w'. unpause toy_crypto example_sdk (Some bob) fresh_world = (Inr tx, w')
       \<and> feePayer tx = None \<and> recentBlockhash tx = None"
      using 2(4) u [THEN conjunct2, THEN conjunct2, THEN conjunct2, THEN conjunct2, THEN conjunct1]
        leaves_unset_Inr by blast
    show "\<exists>tx w'. executeSolTransfer toy_crypto example_sdk bob carol dave
                  (Number (Finite 1000000000)) fresh_world = (Inr tx, w')
       \<and> feePayer tx = None \<and> recentBlockhash tx = None"
      using 6 u [THEN conjunct2, THEN conjunct2, THEN conjunct2, THEN conjunct2, THEN conjunct2,
          THEN conjunct1]
        leaves_unset_Inr by blast
    show "\<exists>tx w'. executeTokenTransfer toy_crypto example_sdk bob carol dave alice
                  (Number (Finite 5000000)) None fresh_world = (Inr tx, w')
       \<and> feePayer tx = None \<and> recentBlockhash tx = None"
      using 7 u [THEN conjunct2, THEN conjunct2, THEN conjunct2, THEN conjunct2, THEN conjunct2,
          THEN conjunct2, THEN conjunct1]
        leaves_unset_Inr by blast
    show "\<exists>tx w'. executeCustomInstruction toy_crypto example_sdk bob carol dave [1, 2, 3]
                  [\<lparr>pubkey = alice, isSigner = False, isWritable = True\<rparr>] fresh_world = (Inr tx, w')
       \<and> feePayer tx = None \<and> recentBlockhash tx = None"
      using 8 u [THEN conjunct2, THEN conjunct2, THEN conjunct2, THEN conjunct2, THEN conjunct2,
          THEN conjunct2, THEN conjunct2]
        leaves_unset_Inr by blast
  qed
qed

section \<open>State shared beyond an instance\<close>

text \<open>
  Claim C9, as amended. No operation of an instance changes the state shared beyond it: the
  eight composer methods and \<^verbatim>\<open>getSmartAccountState\<close> return the world with the
  process-wide provider and the ledger as they were (\<^verbatim>\<open>findSmartAccountPDA\<close> does not touch
  the world at all, and no operation returns a changed instance). Constructing an instance
  changes exactly one thing: it sets the process-wide provider to the instance's own
  read-only provider.
\<close>

theorem operations_leave_shared_state:
  "same_shared_state w (snd (initialize cr sdk owner w))
   \<and> same_shared_state w (snd (addDelegate cr sdk delegate owner w))
   \<and> same_shared_state w (snd (removeDelegate cr sdk delegate owner w))
   \<and> same_shared_state w (snd (pause cr sdk owner w))
   \<and> same_shared_state w (snd (unpause cr sdk owner w))
   \<and> same_shared_state w (snd (executeSolTransfer cr sdk smartAccountOwner delegate recipient a w))
   \<and> same_shared_state w (snd (executeTokenTransfer cr sdk smartAccountOwner delegate
                                   fromTokenAccount toTokenAccount a useToken2022 w))
   \<and> same_shared_state w (snd (executeCustomInstruction cr sdk smartAccountOwner delegate
                                   targetProgram instructionData remainingAccounts w))
   \<and> same_shared_state w (snd (getSmartAccountState sdk smartAccountAddress w))
   \<and> snd (SmartAccountSDK_new idl conn user w) =
       w\<lparr>currentProvider := Some (provider (fst (SmartAccountSDK_new idl conn user w)))\<rparr>
   \<and> provider (fst (SmartAccountSDK_new idl conn user w)) =
       \<lparr>provider_connection = conn, provider_wallet = \<lparr>wallet_publicKey = user\<rparr>,
        preflightCommitment = ''confirmed''\<rparr>"
proof (intro conjI)
  show "same_shared_state w (snd (initialize cr sdk owner w))"
    by (simp add: initialize_def Let_def methods_transaction_shared same_shared_state_refl
        split: sum.splits prod.splits)
  show "same_shared_state w (snd (addDelegate cr sdk delegate owner w))"
    by (simp add: addDelegate_def Let_def methods_transaction_shared same_shared_state_refl
        split: sum.splits prod.splits)
  show "same_shared_state w (snd (removeDelegate cr sdk delegate owner w))"
    by (simp add: removeDelegate_def Let_def methods_transaction_shared same_shared_state_refl
        split: sum.splits prod.splits)
  show "same_shared_state w (snd (pause cr sdk owner w))"
    by (simp add: pause_def Let_def methods_transaction_shared same_shared_state_refl
        split: sum.splits prod.splits)
  show "same_shared_state w (snd (unpause cr sdk owner w))"
    by (simp add: unpause_def Let_def methods_transaction_shared same_shared_state_refl
        split: sum.splits prod.splits)
  show "same_shared_state w (snd (executeSolTransfer cr sdk smartAccountOwner delegate recipient a w))"
    by (simp add: executeSolTransfer_def Let_def methods_transaction_shared same_shared_state_refl
        split: sum.splits prod.splits)
  show "same_shared_state w (snd (executeTokenTransfer cr sdk smartAccountOwner delegate
                                   fromTokenAccount toTokenAccount a useToken2022 w))"
    by (simp add: executeTokenTransfer_def Let_def methods_transaction_shared same_shared_state_refl
        split: sum.splits prod.splits)
  show "same_shared_state w (snd (executeCustomInstruction cr sdk smartAccountOwner delegate
                                   targetProgram instructionData remainingAccounts w))"
    by (simp add: executeCustomInstruction_def Let_def methods_transaction_shared
        same_shared_state_refl split: sum.splits prod.splits)
  show "same_shared_state w (snd (getSmartAccountState sdk smartAccountAddress w))"
    by (simp add: getSmartAccountState_def same_shared_state_def)
  show "snd (SmartAccountSDK_new idl conn user w) =
       w\<lparr>currentProvider := Some (provider (fst (SmartAccountSDK_new idl conn user w)))\<rparr>"
    by (simp add: SmartAccountSDK_new_def Let_def setProvider_def)
  show "provider (fst (SmartAccountSDK_new idl conn user w)) =
       \<lparr>provider_connection = conn, provider_wallet = \<lparr>wallet_publicKey = user\<rparr>,
        preflightCommitment = ''confirmed''\<rparr>"
    by (simp add: SmartAccountSDK_new_def Let_def)
qed

text \<open>The theorem at the example instance and the world its construction leaves.\<close>

theorem operations_leave_shared_state_witness:
  "same_shared_state (snd (SmartAccountSDK_new example_idl devnet alice fresh_world))
     (snd (initialize toy_crypto example_sdk (Some bob)
            (snd (SmartAccountSDK_new example_idl devnet alice fresh_world))))
   \<and> snd (SmartAccountSDK_new example_idl devnet alice fresh_world) =
       fresh_world\<lparr>currentProvider := Some (provider example_sdk)\<rparr>"
  using operations_leave_shared_state
    [where cr = toy_crypto and sdk = example_sdk and owner = "Some bob"
      and w = "snd (SmartAccountSDK_new example_idl devnet alice fresh_world)",
      THEN conjunct1]
    operations_leave_shared_state
    [where idl = example_idl and conn = devnet and user = alice and w = fresh_world,
      THEN conjunct2, THEN conjunct2, THEN conjunct2, THEN conjunct2, THEN conjunct2,
      THEN conjunct2, THEN conjunct2, THEN conjunct2, THEN conjunct2, THEN conjunct1]
  by (simp add: example_sdk_def)

text \<open>
  The claim as first stated fails: constructing an instance changes the process-wide
  provider, here from none to the provider of the new instance.
\<close>

theorem construction_sets_global_provider:
  "currentProvider fresh_world = None
   \<and> currentProvider (snd (SmartAccountSDK_new example_idl devnet alice fresh_world)) =
       Some \<lparr>provider_connection = devnet, provider_wallet = \<lparr>wallet_publicKey = alice\<rparr>,
             preflightCommitment = ''confirmed''\<rparr>"
  by (simp add: fresh_world_def SmartAccountSDK_new_def Let_def setProvider_def)

section \<open>A number and a \<^verbatim>\<open>BN\<close> for the same amount\<close>

text \<open>
  Claim C10, as amended. For every integer \<open>v\<close> from 0 to \<open>2^53 - 1\<close> and every \<^verbatim>\<open>BN\<close>
  that denotes \<open>v\<close>, \<^verbatim>\<open>executeSolTransfer\<close> (respectively \<^verbatim>\<open>executeTokenTransfer\<close>) has
  the same outcome for the number \<open>v\<close> as for the \<^verbatim>\<open>BN\<close>, and in both cases the payload
  is the encoding of \<open>v\<close>.
\<close>

theorem number_and_BN_interchangeable:
  assumes "0 \<le> v" and "v < 0x20000000000000" and "BN_int b = v"
  shows "executeSolTransfer cr sdk smartAccountOwner delegate recipient (Number (Finite (of_int v))) w =
         executeSolTransfer cr sdk smartAccountOwner delegate recipient (BigNum b) w
       \<and> executeTokenTransfer cr sdk smartAccountOwner delegate fromTokenAccount toTokenAccount
           (Number (Finite (of_int v))) useToken2022 w =
         executeTokenTransfer cr sdk smartAccountOwner delegate fromTokenAccount toTokenAccount
           (BigNum b) useToken2022 w
       \<and> solTransferData (Number (Finite (of_int v))) = Inr (nativeTransferEncoding v)
       \<and> solTransferData (BigNum b) = Inr (nativeTransferEncoding v)
       \<and> tokenTransferData (Number (Finite (of_int v))) = Inr (tokenTransferEncoding v)
       \<and> tokenTransferData (BigNum b) = Inr (tokenTransferEncoding v)"
proof -
  have r: "v \<le> 0xffffffffffffffff"
    using assms(2) by simp
  have n: "stands_for (Number (Finite (of_int v))) v" "is_number (Number (Finite (of_int v))) \<longrightarrow> v < 0x20000000000000"
    using assms(2) by (simp_all add: stands_for_def)
  have b: "stands_for (BigNum b) v" "is_number (BigNum b) \<longrightarrow> v < 0x20000000000000"
    using assms(3) by (simp_all add: stands_for_def is_number_def)
  have s: "solTransferData (Number (Finite (of_int v))) = Inr (nativeTransferEncoding v)"
    "solTransferData (BigNum b) = Inr (nativeTransferEncoding v)"
    by (rule solTransferData_accepts [OF assms(1) r n] solTransferData_accepts [OF assms(1) r b])+
  have t: "tokenTransferData (Number (Finite (of_int v))) = Inr (tokenTransferEncoding v)"
    "tokenTransferData (BigNum b) = Inr (tokenTransferEncoding v)"
    by (rule tokenTransferData_accepts [OF assms(1) r n] tokenTransferData_accepts [OF assms(1) r b])+
  show ?thesis
    unfolding executeSolTransfer_def executeTokenTransfer_def s t by simp
qed

text \<open>The theorem at 1 000 000 000 and the \<^verbatim>\<open>BN\<close> with limbs \<open>[60475904, 14]\<close>.\<close>

theorem number_and_BN_interchangeable_witness:
  "(0::int) \<le> 1000000000 \<and> (1000000000::int) < 0x20000000000000
   \<and> BN_int \<lparr>negative = 0, words = [60475904, 14]\<rparr> = 1000000000
   \<and> executeSolTransfer toy_crypto example_sdk bob carol dave
        (Number (Finite 1000000000)) fresh_world =
      executeSolTransfer toy_crypto example_sdk bob carol dave
        (BigNum \<lparr>negative = 0, words = [60475904, 14]\<rparr>) fresh_world
   \<and> solTransferData (BigNum \<lparr>negative = 0, words = [60475904, 14]\<rparr>) =
      Inr [0x02, 0, 0, 0, 0x00, 0xCA, 0x9A, 0x3B, 0, 0, 0, 0]"
proof -
  have r: "(0::int) \<le> 1000000000" "(1000000000::int) < 0x20000000000000"
    by simp_all
  have b: "BN_int \<lparr>negative = 0, words = [60475904, 14]\<rparr> = 1000000000"
    by (simp add: BN_int_def)
  note t = number_and_BN_interchangeable [OF r b]
  from t [THEN conjunct1, of toy_crypto example_sdk bob carol dave fresh_world]
  have e: "executeSolTransfer toy_crypto example_sdk bob carol dave
        (Number (Finite 1000000000)) fresh_world =
      executeSolTransfer toy_crypto example_sdk bob carol dave
        (BigNum \<lparr>negative = 0, words = [60475904, 14]\<rparr>) fresh_world"
    by simp
  from t have "solTransferData (BigNum \<lparr>negative = 0, words = [60475904, 14]\<rparr>) =
      Inr (nativeTransferEncoding 1000000000)"
    by blast
  then have "solTransferData (BigNum \<lparr>negative = 0, words = [60475904, 14]\<rparr>) =
      Inr [0x02, 0, 0, 0, 0x00, 0xCA, 0x9A, 0x3B, 0, 0, 0, 0]"
    by (simp only: nativeTransferEncoding_example)
  with r b e show ?thesis
    by (intro conjI)
qed

text \<open>
  The claim as first stated fails at \<open>v = 2^53\<close>, a value of the unsigned 64-bit range
  that is also a JavaScript number: \<^verbatim>\<open>new BN(9007199254740992)\<close> fails its assertion, so
  the call with the number is rejected, while the call with the \<^verbatim>\<open>BN\<close> of limbs
  \<open>[0, 0, 2]\<close> returns a transaction.
\<close>

theorem large_number_rejected_BN_accepted:
  "BN_int \<lparr>negative = 0, words = [0, 0, 2]\<rparr> = 9007199254740992
   \<and> executeSolTransfer toy_crypto example_sdk bob carol dave
       (Number (Finite 9007199254740992)) fresh_world = (Inl AssertionError, fresh_world)
   \<and> executeSolTransfer toy_crypto example_sdk bob carol dave
       (BigNum \<lparr>negative = 0, words = [0, 0, 2]\<rparr>) fresh_world =
     (Inr \<lparr>feePayer = None, recentBlockhash = None,
           instructions =
             [\<lparr>keys = [\<lparr>pubkey = bob_pda, isSigner = False, isWritable = False\<rparr>,
                       \<lparr>pubkey = carol, isSigner = True, isWritable = False\<rparr>,
                       \<lparr>pubkey = SystemProgram_programId, isSigner = False, isWritable = False\<rparr>,
                       \<lparr>pubkey = bob_pda, isSigner = False, isWritable = True\<rparr>,
                       \<lparr>pubkey = dave, isSigner = False, isWritable = True\<rparr>],
               programId = address example_idl,
               data = Call ''execute'' [BytesArg [2, 0, 0, 0, 0, 0, 0, 0, 0, 0, 0x20, 0]]\<rparr>]\<rparr>,
      \<lparr>currentProvider = None, ledger = [], trace = [MethodsTransaction ''execute'']\<rparr>)"
  unfolding executeSolTransfer_def example_pda two53_payloads
  by (simp add: example_execute BN_int_def)

end
